theory Spec2Isabelle
  imports Main
begin

section \<open>The collaborators of \<open>robot.py\<close>\<close>

text \<open>
  \<open>robot.py\<close> owns no algorithm: every method of \<open>Robot\<close> updates a few attributes and
  calls into the signal graph (the device and its post-step list \<open>device.after\<close>), the
  real-time tracer, \<open>addTrace\<close>, the ROS bridge and \<open>plug\<close>. The embedding keeps the
  attributes as state and records every call made on a collaborator, in order, with its
  arguments. A signal object is identified by its qualified name \<open>signal.name\<close>, a tracer
  by its entity name \<open>tracer.name\<close>, a device by \<open>device.name\<close>.
\<close>

datatype signal = Signal (signal_name: string)

record device =
  dev_name :: string
  signals :: "signal list"

datatype call =
    TracerRealTime string
  | Tracer_setBufferSize string int
  | Tracer_open string string string string
  | Tracer_start string
  | Tracer_dump string
  | Tracer_stop string
  | Tracer_close string
  | Tracer_clear string
  | After_addSignal string string
  | After_addDownsampledSignal string string int
  | After_rmSignal string string
  | AddTrace string string string string
  | Ros string
  | RosPublish_add string string string
  | Plug signal string

text \<open>
  \<open>After_addSignal d s\<close> is \<open>device.after.addSignal(s)\<close> on the device named \<open>d\<close>, and
  likewise for \<open>addDownsampledSignal\<close> and \<open>rmSignal\<close>;
  \<open>AddTrace r t e s\<close> is \<open>addTrace(robot, tracer, e, s)\<close> for the robot named \<open>r\<close> and
  the tracer named \<open>t\<close>; \<open>Ros r\<close> is \<open>Ros(robot)\<close>;
  \<open>RosPublish_add ty n topic\<close> is \<open>ros.rosPublish.add(ty, n, topic)\<close>;
  \<open>Plug sig n\<close> is \<open>plug(sig, ros.rosPublish.signal(n))\<close>.
\<close>

datatype exn = AttributeError | KeyError | LookupFailed string | Raised call

text \<open>
  What the process reads from outside: the parameter server (\<open>None\<close> when
  \<open>rospy.get_param\<close> raises), the home directory, the clock, and which calls on a
  collaborator raise.
\<close>

record env =
  get_param :: "string \<Rightarrow> string option"
  expanduser :: "string \<Rightarrow> string"
  strftime :: "string \<Rightarrow> string"
  fails :: "call \<Rightarrow> bool"

section \<open>State\<close>

text \<open>
  \<open>autoRecomputedSignals\<close> is an attribute of the class \<open>Robot\<close>: no method assigns it
  on an instance, so every instance reaches the one list of the class, which lives in
  the process state next to the log of calls. The class attribute \<open>tracer = None\<close> is
  the value an instance reads before it assigns its own, so \<open>tracer\<close> of an instance
  is \<open>None\<close> from the start; \<open>tracerSize\<close> is never assigned. The attributes \<open>ros\<close> and
  \<open>device_signals_names\<close> are \<open>None\<close> until the constructor assigns them: reading one
  before that is an \<open>AttributeError\<close>.
\<close>

record process =
  autoRecomputedSignals :: "string list"
  calls :: "call list"

record robot =
  name :: string
  device :: "device option"
  tracer :: "string option"
  tracedSignals :: "(string \<times> string list) list"
  device_signals_names :: "string list option"
  ros :: "string option"

definition tracerSize :: int where
  "tracerSize = 2 ^ 20"

type_synonym state = "robot \<times> process"
type_synonym stmt = "state \<Rightarrow> exn option \<times> state"

section \<open>Statements\<close>

text \<open>
  A statement maps the state to the exception it raised, if any, and the state it
  reached. A raised exception ends the enclosing block and loop.
\<close>

definition skip :: stmt where
  "skip s = (None, s)"

definition raise :: "exn \<Rightarrow> stmt" where
  "raise e s = (Some e, s)"

definition assign :: "(state \<Rightarrow> state) \<Rightarrow> stmt" where
  "assign f s = (None, f s)"

definition seq :: "stmt \<Rightarrow> stmt \<Rightarrow> stmt" where
  "seq f g s = (case f s of (None, s') \<Rightarrow> g s' | (Some e, s') \<Rightarrow> (Some e, s'))"

fun block :: "stmt list \<Rightarrow> stmt" where
  "block [] = skip"
| "block (c # cs) = seq c (block cs)"

fun foreach :: "'a list \<Rightarrow> ('a \<Rightarrow> stmt) \<Rightarrow> stmt" where
  "foreach [] body = skip"
| "foreach (x # xs) body = seq (body x) (foreach xs body)"

text \<open>A call on a collaborator is logged when it is made; it raises when the
  environment says so.\<close>

definition call :: "env \<Rightarrow> call \<Rightarrow> stmt" where
  "call E c = (\<lambda>(r, p).
     (if fails E c then Some (Raised c) else None, (r, p\<lparr>calls := calls p @ [c]\<rparr>)))"

text \<open>\<open>self.device.<attribute>\<close>: \<open>AttributeError\<close> when the device is \<open>None\<close>.\<close>

definition with_device :: "(device \<Rightarrow> stmt) \<Rightarrow> stmt" where
  "with_device k = (\<lambda>(r, p).
     case device r of None \<Rightarrow> (Some AttributeError, (r, p)) | Some d \<Rightarrow> k d (r, p))"

section \<open>Strings and paths\<close>

text \<open>\<open>s.split('::')\<close>: the pieces between the occurrences of the separator, found
  from the left, without overlap. \<open>acc\<close> is the piece being read.\<close>

fun split_colons :: "string \<Rightarrow> string \<Rightarrow> string list" where
  "split_colons acc (c # d # cs) =
     (if c = CHR '':'' \<and> d = CHR '':'' then acc # split_colons [] cs
      else split_colons (acc @ [c]) (d # cs))"
| "split_colons acc [c] = [acc @ [c]]"
| "split_colons acc [] = [acc]"

text \<open>\<open>signal.name.split('::')[-1]\<close>; the list is never empty.\<close>

definition short_name :: "signal \<Rightarrow> string" where
  "short_name sg = last (split_colons [] (signal_name sg))"

text \<open>\<open>'{0}.{1}'.format(a, b)\<close> and \<open>'{0}.triger'.format(a)\<close> on strings.\<close>

definition format_dot :: "string \<Rightarrow> string \<Rightarrow> string" where
  "format_dot a b = a @ ''.'' @ b"

definition format_triger :: "string \<Rightarrow> string" where
  "format_triger a = a @ ''.triger''"

text \<open>\<open>os.path.join(a, *p)\<close> of \<open>posixpath\<close>: an absolute component discards what
  precedes it; otherwise a separator is put in unless the path so far is empty or
  ends with one.\<close>

fun os_path_join :: "string \<Rightarrow> string list \<Rightarrow> string" where
  "os_path_join path [] = path"
| "os_path_join path (b # p) =
     os_path_join
       (if b \<noteq> [] \<and> hd b = CHR ''/'' then b
        else if path = [] \<or> last path = CHR ''/'' then path @ b
        else path @ ''/'' @ b) p"

text \<open>The \<open>try\<close>/\<open>except\<close> of \<open>initialize_tracer\<close>: the parameter, or the path under
  the home directory when the lookup raised.\<close>

definition log_dir :: "env \<Rightarrow> string" where
  "log_dir E =
     (case get_param E ''/dynamic_graph/log_dir'' of
        Some d \<Rightarrow> d
      | None \<Rightarrow> os_path_join (expanduser E ''~'')
                  [''.dynamic_graph_manager'', strftime E ''%Y_%m_%d_%H_%M_%S''])"

text \<open>\<open>device.signal(n)\<close>: the signal of the device whose short name is \<open>n\<close>.\<close>

definition device_signal :: "device \<Rightarrow> string \<Rightarrow> signal option" where
  "device_signal d n = find (\<lambda>sg. short_name sg = n) (signals d)"

section \<open>The methods of \<open>Robot\<close>\<close>

definition initialize_tracer :: "env \<Rightarrow> stmt" where
  "initialize_tracer E = (\<lambda>(r, p).
     case tracer r of
       Some t \<Rightarrow> (None, (r, p))
     | None \<Rightarrow>
         block [
           call E (TracerRealTime ''trace''),
           assign (\<lambda>(r, p). (r\<lparr>tracer := Some ''trace''\<rparr>, p)),
           call E (Tracer_setBufferSize ''trace'' tracerSize),
           call E (Tracer_open ''trace'' (log_dir E) ''dg_'' ''.dat''),
           with_device (\<lambda>d (r, p).
             case tracer r of
               None \<Rightarrow> (Some AttributeError, (r, p))
             | Some t \<Rightarrow> call E (After_addSignal (dev_name d) (format_triger t)) (r, p))
         ] (r, p))"

definition add_trace :: "env \<Rightarrow> string \<Rightarrow> string \<Rightarrow> stmt" where
  "add_trace E entityName signalName = (\<lambda>(r, p).
     case tracer r of
       None \<Rightarrow> (None, (r, p))
     | Some t \<Rightarrow>
         block [
           assign (\<lambda>(r, p). (r, p\<lparr>autoRecomputedSignals :=
             autoRecomputedSignals p @ [format_dot entityName signalName]\<rparr>)),
           call E (AddTrace (name r) t entityName signalName)
         ] (r, p))"

definition start_tracer :: "env \<Rightarrow> stmt" where
  "start_tracer E = (\<lambda>(r, p).
     case tracer r of
       None \<Rightarrow> (None, (r, p))
     | Some t \<Rightarrow> call E (Tracer_start t) (r, p))"

definition stop_tracer :: "env \<Rightarrow> stmt" where
  "stop_tracer E = (\<lambda>(r, p).
     case tracer r of
       None \<Rightarrow> (None, (r, p))
     | Some t \<Rightarrow>
         block [
           call E (Tracer_dump t),
           call E (Tracer_stop t),
           call E (Tracer_close t),
           call E (Tracer_clear t),
           (\<lambda>(r, p). foreach (autoRecomputedSignals p) (\<lambda>s.
              with_device (\<lambda>d. call E (After_rmSignal (dev_name d) s))) (r, p)),
           assign (\<lambda>(r, p). (r\<lparr>tracer := None\<rparr>, p))
         ] (r, p))"

definition del :: "env \<Rightarrow> stmt" where
  "del E = (\<lambda>(r, p).
     case tracer r of
       None \<Rightarrow> (None, (r, p))
     | Some t \<Rightarrow> stop_tracer E (r, p))"

definition export_signal_to_ros :: "env \<Rightarrow> signal \<Rightarrow> string option \<Rightarrow> stmt" where
  "export_signal_to_ros E sg topic_name = (\<lambda>(r, p).
     let topic_name = (case topic_name of None \<Rightarrow> signal_name sg | Some n \<Rightarrow> n) in
     case ros r of
       None \<Rightarrow> (Some AttributeError, (r, p))
     | Some b \<Rightarrow>
         block [
           call E (RosPublish_add ''vector'' topic_name (''/dg__'' @ topic_name)),
           call E (Plug sg topic_name)
         ] (r, p))"

definition export_device_dg_to_ros :: "env \<Rightarrow> stmt" where
  "export_device_dg_to_ros E = (\<lambda>(r, p).
     case device_signals_names r of
       None \<Rightarrow> (Some AttributeError, (r, p))
     | Some ns \<Rightarrow>
         foreach ns (\<lambda>sig_name.
           with_device (\<lambda>d.
             case device_signal d sig_name of
               None \<Rightarrow> raise (LookupFailed sig_name)
             | Some sg \<Rightarrow> export_signal_to_ros E sg (Some (''device__'' @ sig_name)))) (r, p))"

text \<open>\<open>self.device_signals_names.append(n)\<close>.\<close>

definition names_append :: "string \<Rightarrow> stmt" where
  "names_append n = (\<lambda>(r, p).
     case device_signals_names r of
       None \<Rightarrow> (Some AttributeError, (r, p))
     | Some ns \<Rightarrow> (None, (r\<lparr>device_signals_names := Some (ns @ [n])\<rparr>, p)))"

text \<open>\<open>self.tracedSignals['device'].append(n)\<close> on the dictionary kept as an
  association list.\<close>

definition traced_append :: "string \<Rightarrow> string \<Rightarrow> stmt" where
  "traced_append k n = (\<lambda>(r, p).
     case map_of (tracedSignals r) k of
       None \<Rightarrow> (Some KeyError, (r, p))
     | Some v \<Rightarrow> (None, (r\<lparr>tracedSignals :=
         map (\<lambda>(k', v'). if k' = k then (k', v' @ [n]) else (k', v')) (tracedSignals r)\<rparr>, p)))"

text \<open>\<open>Robot(name, device, tracer)\<close>: the new instance, or the exception and the
  instance as far as it was built. An injected tracer is an object, hence true.\<close>

definition init :: "env \<Rightarrow> string \<Rightarrow> device option \<Rightarrow> string option \<Rightarrow> process \<Rightarrow>
    exn option \<times> state" where
  "init E nm dev trc p =
     block [
       initialize_tracer E,
       assign (\<lambda>(r, p). (r\<lparr>tracedSignals := [(''device'', [])]\<rparr>, p)),
       assign (\<lambda>(r, p). (r\<lparr>device_signals_names := Some []\<rparr>, p)),
       with_device (\<lambda>d. foreach (signals d) (\<lambda>sg.
         block [
           traced_append ''device'' (short_name sg),
           names_append (short_name sg)
         ])),
       (\<lambda>(r, p).
          case map_of (tracedSignals r) ''device'' of
            None \<Rightarrow> (Some KeyError, (r, p))
          | Some ss \<Rightarrow> foreach ss (\<lambda>s.
              with_device (\<lambda>d. add_trace E (dev_name d) s)) (r, p)),
       call E (Ros nm),
       assign (\<lambda>(r, p). (r\<lparr>ros := Some nm\<rparr>, p)),
       with_device (\<lambda>d. call E (After_addDownsampledSignal (dev_name d) ''rosPublish.trigger'' 1)),
       export_device_dg_to_ros E
     ] (\<lparr>name = nm, device = dev, tracer = trc, tracedSignals = [],
          device_signals_names = None, ros = None\<rparr>, p)"

section \<open>Vocabulary of the properties\<close>

text \<open>Whether a string contains the separator \<open>::\<close>.\<close>

fun has_sep :: "string \<Rightarrow> bool" where
  "has_sep (c # d # cs) = (c = CHR '':'' \<and> d = CHR '':'' \<or> has_sep (d # cs))"
| "has_sep [c] = False"
| "has_sep [] = False"

text \<open>The calls of \<open>initialize_tracer\<close> when it creates the tracer, for a device
  named \<open>dn\<close>.\<close>

definition tracer_setup :: "env \<Rightarrow> string \<Rightarrow> call list" where
  "tracer_setup E dn =
     [TracerRealTime ''trace'', Tracer_setBufferSize ''trace'' tracerSize,
      Tracer_open ''trace'' (log_dir E) ''dg_'' ''.dat'', After_addSignal dn ''trace.triger'']"

text \<open>The two calls that publish the signal \<open>sg\<close> under the short name \<open>s\<close>, and the
  calls \<open>export_device_dg_to_ros\<close> makes for one name of the device.\<close>

definition publication :: "signal \<Rightarrow> string \<Rightarrow> call list" where
  "publication sg s =
     [RosPublish_add ''vector'' (''device__'' @ s) (''/dg__device__'' @ s), Plug sg (''device__'' @ s)]"

definition export_calls :: "device \<Rightarrow> string \<Rightarrow> call list" where
  "export_calls d s = (case device_signal d s of None \<Rightarrow> [] | Some sg \<Rightarrow> publication sg s)"

text \<open>Kinds of calls, and the names a list of calls passes to \<open>device.after\<close> of the
  device \<open>d\<close>: to \<open>addSignal\<close> or \<open>addDownsampledSignal\<close>, and to \<open>rmSignal\<close>.\<close>

fun is_AddTrace :: "call \<Rightarrow> bool" where
  "is_AddTrace (AddTrace r t e s) = True"
| "is_AddTrace c = False"

fun is_RosPublish_add :: "call \<Rightarrow> bool" where
  "is_RosPublish_add (RosPublish_add ty n topic) = True"
| "is_RosPublish_add c = False"

fun is_Plug :: "call \<Rightarrow> bool" where
  "is_Plug (Plug sg n) = True"
| "is_Plug c = False"

fun scheduled :: "string \<Rightarrow> call list \<Rightarrow> string list" where
  "scheduled d [] = []"
| "scheduled d (After_addSignal d' n # cs) = (if d' = d then n # scheduled d cs else scheduled d cs)"
| "scheduled d (After_addDownsampledSignal d' n k # cs) =
     (if d' = d then n # scheduled d cs else scheduled d cs)"
| "scheduled d (c # cs) = scheduled d cs"

fun removed :: "string \<Rightarrow> call list \<Rightarrow> string list" where
  "removed d [] = []"
| "removed d (After_rmSignal d' n # cs) = (if d' = d then n # removed d cs else removed d cs)"
| "removed d (c # cs) = removed d cs"

text \<open>
  A run from \<open>s\<close> to the result \<open>res\<close> only appends to the log of calls and to
  \<open>autoRecomputedSignals\<close>, and a call that raised is the exception of the run: nothing
  was caught. A statement propagates when all its runs are such.
\<close>

definition run_ok :: "env \<Rightarrow> state \<Rightarrow> exn option \<times> state \<Rightarrow> bool" where
  "run_ok E s res =
     (\<exists>new ys. calls (snd (snd res)) = calls (snd s) @ new \<and>
        autoRecomputedSignals (snd (snd res)) = autoRecomputedSignals (snd s) @ ys \<and>
        (\<forall>c\<in>set new. fails E c \<longrightarrow> fst res = Some (Raised c)))"

definition propagates :: "env \<Rightarrow> stmt \<Rightarrow> bool" where
  "propagates E f = (\<forall>s. run_ok E s (f s))"

text \<open>
  What a method attempts, in program order: a call on a collaborator, which raises
  when the environment says so, or a step that raises by itself (an attribute read on
  the device \<open>None\<close> or on an attribute never assigned, a failed signal lookup).
  When nothing is caught, the outcome of the method is the first attempt that raises.
\<close>

datatype attempt = Call call | Fault exn

fun first_raise :: "env \<Rightarrow> attempt list \<Rightarrow> exn option" where
  "first_raise E [] = None"
| "first_raise E (Call c # as) = (if fails E c then Some (Raised c) else first_raise E as)"
| "first_raise E (Fault e # as) = Some e"

text \<open>The attempts of each method on the robot \<open>r\<close>, and of the constructor.\<close>

definition initialize_tracer_attempts :: "env \<Rightarrow> robot \<Rightarrow> attempt list" where
  "initialize_tracer_attempts E r =
     (case tracer r of
        Some t \<Rightarrow> []
      | None \<Rightarrow>
          [Call (TracerRealTime ''trace''), Call (Tracer_setBufferSize ''trace'' tracerSize),
           Call (Tracer_open ''trace'' (log_dir E) ''dg_'' ''.dat''),
           (case device r of
              None \<Rightarrow> Fault AttributeError
            | Some d \<Rightarrow> Call (After_addSignal (dev_name d) ''trace.triger''))])"

definition add_trace_attempts :: "robot \<Rightarrow> string \<Rightarrow> string \<Rightarrow> attempt list" where
  "add_trace_attempts r e n =
     (case tracer r of None \<Rightarrow> [] | Some t \<Rightarrow> [Call (AddTrace (name r) t e n)])"

definition start_tracer_attempts :: "robot \<Rightarrow> attempt list" where
  "start_tracer_attempts r = (case tracer r of None \<Rightarrow> [] | Some t \<Rightarrow> [Call (Tracer_start t)])"

definition stop_tracer_attempts :: "robot \<Rightarrow> process \<Rightarrow> attempt list" where
  "stop_tracer_attempts r p =
     (case tracer r of
        None \<Rightarrow> []
      | Some t \<Rightarrow>
          [Call (Tracer_dump t), Call (Tracer_stop t), Call (Tracer_close t), Call (Tracer_clear t)]
          @ map (\<lambda>s. case device r of
                        None \<Rightarrow> Fault AttributeError
                      | Some d \<Rightarrow> Call (After_rmSignal (dev_name d) s))
              (autoRecomputedSignals p))"

definition export_signal_attempts :: "robot \<Rightarrow> signal \<Rightarrow> string option \<Rightarrow> attempt list" where
  "export_signal_attempts r sg topic_name =
     (let n = (case topic_name of None \<Rightarrow> signal_name sg | Some n \<Rightarrow> n) in
      case ros r of
        None \<Rightarrow> [Fault AttributeError]
      | Some b \<Rightarrow> [Call (RosPublish_add ''vector'' n (''/dg__'' @ n)), Call (Plug sg n)])"

definition export_device_attempts :: "robot \<Rightarrow> attempt list" where
  "export_device_attempts r =
     (case device_signals_names r of
        None \<Rightarrow> [Fault AttributeError]
      | Some ns \<Rightarrow>
          concat (map (\<lambda>n.
            case device r of
              None \<Rightarrow> [Fault AttributeError]
            | Some d \<Rightarrow>
                (case device_signal d n of
                   None \<Rightarrow> [Fault (LookupFailed n)]
                 | Some sg \<Rightarrow> export_signal_attempts r sg (Some (''device__'' @ n)))) ns))"

definition init_attempts :: "env \<Rightarrow> string \<Rightarrow> device option \<Rightarrow> string option \<Rightarrow> attempt list" where
  "init_attempts E nm dev trc =
     (case trc of
        Some t \<Rightarrow> []
      | None \<Rightarrow>
          [Call (TracerRealTime ''trace''), Call (Tracer_setBufferSize ''trace'' tracerSize),
           Call (Tracer_open ''trace'' (log_dir E) ''dg_'' ''.dat'')])
     @ (case dev of
          None \<Rightarrow> [Fault AttributeError]
        | Some d \<Rightarrow>
            (case trc of
               Some t \<Rightarrow> []
             | None \<Rightarrow> [Call (After_addSignal (dev_name d) ''trace.triger'')])
            @ map (\<lambda>sg. Call (AddTrace nm (case trc of None \<Rightarrow> ''trace'' | Some t \<Rightarrow> t)
                    (dev_name d) (short_name sg))) (signals d)
            @ [Call (Ros nm), Call (After_addDownsampledSignal (dev_name d) ''rosPublish.trigger'' 1)]
            @ concat (map (\<lambda>sg. map Call (export_calls d (short_name sg))) (signals d)))"

text \<open>A run of \<open>f\<close> from \<open>s\<close> attempts \<open>as\<close> and, when none raises, leaves the robot \<open>r'\<close>.\<close>

definition attempts :: "env \<Rightarrow> stmt \<Rightarrow> state \<Rightarrow> attempt list \<Rightarrow> robot \<Rightarrow> bool" where
  "attempts E f s as r' \<longleftrightarrow>
     fst (f s) = first_raise E as \<and> (fst (f s) = None \<longrightarrow> fst (snd (f s)) = r')"

section \<open>Example inputs\<close>

text \<open>No parameter server, nothing raises; then the same with \<open>tracer.dump()\<close> raising.\<close>

definition env0 :: env where
  "env0 = \<lparr>get_param = (\<lambda>k. None), expanduser = (\<lambda>s. ''/home/robot''),
            strftime = (\<lambda>f. ''2020_01_02_03_04_05''), fails = (\<lambda>c. False)\<rparr>"

definition env1 :: env where
  "env1 = \<lparr>get_param = (\<lambda>k. None), expanduser = (\<lambda>s. ''/home/robot''),
            strftime = (\<lambda>f. ''2020_01_02_03_04_05''),
            fails = (\<lambda>c. c = Tracer_dump ''trace'')\<rparr>"

definition device0 :: device where
  "device0 = \<lparr>dev_name = ''dev'',
     signals = [Signal ''Device(dev)::output(vector)::q'', Signal ''Device(dev)::output(vector)::dq'']\<rparr>"

definition process0 :: process where
  "process0 = \<lparr>autoRecomputedSignals = [], calls = []\<rparr>"

text \<open>The robot built on \<open>device0\<close> with no tracer given, and with the tracer \<open>tr\<close>
  given; the first one after \<open>stop_tracer\<close>.\<close>

definition built0 :: state where
  "built0 = snd (init env0 ''robot'' (Some device0) None process0)"

definition built1 :: state where
  "built1 = snd (init env0 ''robot'' (Some device0) (Some ''tr'') process0)"

definition torn0 :: state where
  "torn0 = snd (stop_tracer env0 built0)"

section \<open>Running statements\<close>

lemma seq_None: "f s = (None, s') \<Longrightarrow> seq f g s = g s'"
  by (simp add: seq_def)

lemma seq_Some: "f s = (Some e, s') \<Longrightarrow> seq f g s = (Some e, s')"
  by (simp add: seq_def)

lemma seq_assign: "seq (assign f) g s = g (f s)"
  by (simp add: seq_def assign_def)

lemma call_ok: "\<not> fails E c \<Longrightarrow> call E c (r, p) = (None, (r, p\<lparr>calls := calls p @ [c]\<rparr>))"
  by (simp add: call_def)

lemma seq_call_ok: "\<not> fails E c \<Longrightarrow> seq (call E c) g (r, p) = g (r, p\<lparr>calls := calls p @ [c]\<rparr>)"
  by (simp add: seq_def call_def)

lemma with_device_Some: "device r = Some d \<Longrightarrow> with_device k (r, p) = k d (r, p)"
  by (simp add: with_device_def)

lemma with_device_None: "device r = None \<Longrightarrow> with_device k (r, p) = (Some AttributeError, (r, p))"
  by (simp add: with_device_def)

lemma call_apply:
  "call E c (r, p) = (if fails E c then Some (Raised c) else None, (r, p\<lparr>calls := calls p @ [c]\<rparr>))"
  by (simp add: call_def)

lemma with_device_apply:
  "with_device k (r, p) = (case device r of None \<Rightarrow> (Some AttributeError, (r, p)) | Some d \<Rightarrow> k d (r, p))"
  by (simp add: with_device_def)

lemma assign_apply: "assign f (r, p) = (None, f (r, p))"
  by (simp add: assign_def)

lemmas stmt_simps = seq_def skip_def raise_def assign_apply call_apply with_device_apply

text \<open>The loop of \<open>stop_tracer\<close> over \<open>autoRecomputedSignals\<close>.\<close>

lemma rm_loop_ok:
  "\<forall>c. \<not> fails E c \<Longrightarrow> device r = Some d \<Longrightarrow>
   foreach xs (\<lambda>s. with_device (\<lambda>d. call E (After_rmSignal (dev_name d) s))) (r, p) =
     (None, (r, p\<lparr>calls := calls p @ map (After_rmSignal (dev_name d)) xs\<rparr>))"
  by (induction xs arbitrary: p) (simp_all add: skip_def seq_def with_device_def call_def)

lemma rm_loop_frame:
  "foreach xs (\<lambda>s. with_device (\<lambda>d. call E (After_rmSignal (dev_name d) s))) (r, p) = (e, (r', p')) \<Longrightarrow>
   r' = r \<and> autoRecomputedSignals p' = autoRecomputedSignals p"
  by (induction xs arbitrary: p) (auto simp add: skip_def seq_def with_device_def call_def split: option.splits if_splits)

lemma stop_tracer_stopped: "tracer r = None \<Longrightarrow> stop_tracer E (r, p) = (None, (r, p))"
  by (simp add: stop_tracer_def)

lemma stop_tracer_frame:
  "stop_tracer E (r, p) = (e, (r', p')) \<Longrightarrow>
    autoRecomputedSignals p' = autoRecomputedSignals p \<and> (e = None \<longrightarrow> tracer r' = None)"
  apply (cases "tracer r")
   apply (simp add: stop_tracer_def)
  apply (simp add: stop_tracer_def stmt_simps split: if_splits prod.splits option.splits)
  apply (auto dest!: rm_loop_frame simp: assign_def)
  done

lemma stop_tracer_ok:
  "\<forall>c. \<not> fails E c \<Longrightarrow> device r = Some d \<Longrightarrow> tracer r = Some t \<Longrightarrow>
   stop_tracer E (r, p) = (None, (r\<lparr>tracer := None\<rparr>,
      p\<lparr>calls := calls p @ [Tracer_dump t, Tracer_stop t, Tracer_close t, Tracer_clear t]
            @ map (After_rmSignal (dev_name d)) (autoRecomputedSignals p)\<rparr>))"
  by (simp add: stop_tracer_def stmt_simps rm_loop_ok)

text \<open>The loops of the constructor.\<close>

lemma names_loop:
  "tracedSignals r = [(''device'', acc)] \<Longrightarrow> device_signals_names r = Some ns \<Longrightarrow>
   foreach sgs (\<lambda>sg.
         block [
           traced_append ''device'' (short_name sg),
           names_append (short_name sg)
         ]) (r, p) =
   (None, (r\<lparr>tracedSignals := [(''device'', acc @ map short_name sgs)],
             device_signals_names := Some (ns @ map short_name sgs)\<rparr>, p))"
  by (induction sgs arbitrary: r acc ns)
    (simp_all add: skip_def seq_def traced_append_def names_append_def)

lemma add_trace_ok:
  "\<forall>c. \<not> fails E c \<Longrightarrow> tracer r = Some t \<Longrightarrow>
   add_trace E e s (r, p) = (None, (r, p\<lparr>autoRecomputedSignals := autoRecomputedSignals p @ [format_dot e s],
      calls := calls p @ [AddTrace (name r) t e s]\<rparr>))"
  by (simp add: add_trace_def seq_def assign_def call_def skip_def)

lemma trace_loop_ok:
  "\<forall>c. \<not> fails E c \<Longrightarrow> tracer r = Some t \<Longrightarrow> device r = Some d \<Longrightarrow>
   foreach ss (\<lambda>s. with_device (\<lambda>d. add_trace E (dev_name d) s)) (r, p) =
    (None, (r, p\<lparr>autoRecomputedSignals := autoRecomputedSignals p @ map (format_dot (dev_name d)) ss,
      calls := calls p @ map (AddTrace (name r) t (dev_name d)) ss\<rparr>))"
  by (induction ss arbitrary: p) (simp_all add: skip_def seq_def with_device_def add_trace_ok)

section \<open>Short names\<close>

lemma split_nonempty: "split_colons acc s \<noteq> []"
  by (induction acc s rule: split_colons.induct) auto

lemma split_no_sep: "\<not> has_sep s \<Longrightarrow> split_colons acc s = [acc @ s]"
  by (induction acc s rule: split_colons.induct) auto

lemma split_last_suffix:
  "last (split_colons acc s) = acc @ s \<or> (\<exists>pre. s = pre @ ''::'' @ last (split_colons acc s))"
proof (induction acc s rule: split_colons.induct)
  case (1 acc c d cs)
  show ?case
  proof (cases "c = CHR '':'' \<and> d = CHR '':''")
    case True
    then have "last (split_colons [] cs) = [] @ cs \<or> (\<exists>pre. cs = pre @ ''::'' @ last (split_colons [] cs))"
      using 1(1) by blast
    then show ?thesis
    proof
      assume "last (split_colons [] cs) = [] @ cs"
      with True have "c # d # cs = [] @ ''::'' @ last (split_colons acc (c # d # cs))"
        by (simp add: split_nonempty)
      then show ?thesis by blast
    next
      assume "\<exists>pre. cs = pre @ ''::'' @ last (split_colons [] cs)"
      then obtain pre where "cs = pre @ ''::'' @ last (split_colons [] cs)" by blast
      with True have "c # d # cs = (c # d # pre) @ ''::'' @ last (split_colons acc (c # d # cs))"
        by (simp add: split_nonempty)
      then show ?thesis by blast
    qed
  next
    case False
    then have ih: "last (split_colons (acc @ [c]) (d # cs)) = (acc @ [c]) @ d # cs \<or>
       (\<exists>pre. d # cs = pre @ ''::'' @ last (split_colons (acc @ [c]) (d # cs)))"
      using 1(2) by blast
    from False have eq: "split_colons acc (c # d # cs) = split_colons (acc @ [c]) (d # cs)"
      by auto
    from ih show ?thesis
    proof
      assume "last (split_colons (acc @ [c]) (d # cs)) = (acc @ [c]) @ d # cs"
      then show ?thesis using eq by simp
    next
      assume "\<exists>pre. d # cs = pre @ ''::'' @ last (split_colons (acc @ [c]) (d # cs))"
      then obtain pre where "d # cs = pre @ ''::'' @ last (split_colons (acc @ [c]) (d # cs))" by blast
      then have "c # d # cs = (c # pre) @ ''::'' @ last (split_colons acc (c # d # cs))"
        using eq by simp
      then show ?thesis by blast
    qed
  qed
qed simp_all

lemma has_sep_snoc:
  "\<not> has_sep acc \<Longrightarrow> (acc \<noteq> [] \<and> last acc = CHR '':'' \<longrightarrow> c \<noteq> CHR '':'') \<Longrightarrow> \<not> has_sep (acc @ [c])"
  by (induction acc rule: has_sep.induct) auto

lemma split_last_no_sep:
  "\<not> has_sep acc \<Longrightarrow> (acc \<noteq> [] \<and> last acc = CHR '':'' \<longrightarrow> s = [] \<or> hd s \<noteq> CHR '':'') \<Longrightarrow>
   \<not> has_sep (last (split_colons acc s))"
proof (induction acc s rule: split_colons.induct)
  case (1 acc c d cs)
  then show ?case
    by (auto simp: has_sep_snoc split_nonempty)
next
  case (2 acc c)
  then show ?case by (auto simp: has_sep_snoc)
next
  case (3 acc)
  then show ?case by simp
qed

section \<open>Construction when nothing raises\<close>

lemma initialize_tracer_ok:
  "\<forall>c. \<not> fails E c \<Longrightarrow> device r = Some d \<Longrightarrow> tracer r = None \<Longrightarrow>
   initialize_tracer E (r, p) =
     (None, (r\<lparr>tracer := Some ''trace''\<rparr>, p\<lparr>calls := calls p @ tracer_setup E (dev_name d)\<rparr>))"
  by (simp add: initialize_tracer_def stmt_simps tracer_setup_def format_triger_def)

lemma initialize_tracer_injected:
  "tracer r = Some t \<Longrightarrow> initialize_tracer E (r, p) = (None, (r, p))"
  by (simp add: initialize_tracer_def)

lemma device_signal_found:
  "sg \<in> set (signals d) \<Longrightarrow> \<exists>sg'. device_signal d (short_name sg) = Some sg'"
  by (cases "device_signal d (short_name sg)") (auto simp: device_signal_def find_None_iff)

lemma device_signal_sound:
  "device_signal d s = Some sg \<Longrightarrow> sg \<in> set (signals d) \<and> short_name sg = s"
  by (auto simp: device_signal_def find_Some_iff)

lemma export_signal_ok:
  "\<forall>c. \<not> fails E c \<Longrightarrow> ros r = Some b \<Longrightarrow>
   export_signal_to_ros E sg (Some n) (r, p) =
     (None, (r, p\<lparr>calls := calls p @ [RosPublish_add ''vector'' n (''/dg__'' @ n), Plug sg n]\<rparr>))"
  by (simp add: export_signal_to_ros_def stmt_simps)

lemma export_loop_ok:
  "\<forall>c. \<not> fails E c \<Longrightarrow> ros r = Some b \<Longrightarrow> device r = Some d \<Longrightarrow>
   \<forall>n\<in>set ns. device_signal d n \<noteq> None \<Longrightarrow>
   foreach ns (\<lambda>sig_name.
       with_device (\<lambda>d.
         case device_signal d sig_name of
           None \<Rightarrow> raise (LookupFailed sig_name)
         | Some sg \<Rightarrow> export_signal_to_ros E sg (Some (''device__'' @ sig_name)))) (r, p) =
   (None, (r, p\<lparr>calls := calls p @ concat (map (export_calls d) ns)\<rparr>))"
proof (induction ns arbitrary: p)
  case Nil
  then show ?case by (simp add: skip_def)
next
  case (Cons n ns)
  then obtain sg where sg: "device_signal d n = Some sg" by auto
  show ?case
    using Cons sg
    by (simp add: seq_def with_device_apply export_signal_ok export_calls_def publication_def)
qed

lemma export_device_ok:
  "\<forall>c. \<not> fails E c \<Longrightarrow> ros r = Some b \<Longrightarrow> device r = Some d \<Longrightarrow>
   device_signals_names r = Some ns \<Longrightarrow> \<forall>n\<in>set ns. device_signal d n \<noteq> None \<Longrightarrow>
   export_device_dg_to_ros E (r, p) =
   (None, (r, p\<lparr>calls := calls p @ concat (map (export_calls d) ns)\<rparr>))"
  by (simp add: export_device_dg_to_ros_def export_loop_ok)

lemma init_ok_injected:
  assumes nf: "\<forall>c. \<not> fails E c"
  shows "init E nm (Some d) (Some t) p =
    (None, (\<lparr>name = nm, device = Some d, tracer = Some t,
              tracedSignals = [(''device'', map short_name (signals d))],
              device_signals_names = Some (map short_name (signals d)), ros = Some nm\<rparr>,
            \<lparr>autoRecomputedSignals = autoRecomputedSignals p @
                 map (\<lambda>sg. format_dot (dev_name d) (short_name sg)) (signals d),
              calls = calls p
                @ map (\<lambda>sg. AddTrace nm t (dev_name d) (short_name sg)) (signals d)
                @ [Ros nm, After_addDownsampledSignal (dev_name d) ''rosPublish.trigger'' 1]
                @ concat (map (\<lambda>sg. export_calls d (short_name sg)) (signals d))\<rparr>))"
proof -
  have found: "\<forall>n\<in>set (map short_name (signals d)). device_signal d n \<noteq> None"
    using device_signal_found by fastforce
  let ?r0 = "\<lparr>name = nm, device = Some d, tracer = Some t,
      tracedSignals = [(''device'', [])], device_signals_names = Some [], ros = None\<rparr>"
  have loop1: "foreach (signals d) (\<lambda>sg.
         block [
           traced_append ''device'' (short_name sg),
           names_append (short_name sg)
         ]) (?r0, q) =
     (None, (?r0\<lparr>tracedSignals := [(''device'', [] @ map short_name (signals d))],
             device_signals_names := Some ([] @ map short_name (signals d))\<rparr>, q))" for q
    by (rule names_loop) simp_all
  show ?thesis
    using nf found loop1
    by (simp add: init_def stmt_simps initialize_tracer_injected trace_loop_ok
        export_device_ok comp_def)
qed

lemma init_ok_created:
  assumes nf: "\<forall>c. \<not> fails E c"
  shows "init E nm (Some d) None p =
    (None, (\<lparr>name = nm, device = Some d, tracer = Some ''trace'',
              tracedSignals = [(''device'', map short_name (signals d))],
              device_signals_names = Some (map short_name (signals d)), ros = Some nm\<rparr>,
            \<lparr>autoRecomputedSignals = autoRecomputedSignals p @
                 map (\<lambda>sg. format_dot (dev_name d) (short_name sg)) (signals d),
              calls = calls p @ tracer_setup E (dev_name d)
                @ map (\<lambda>sg. AddTrace nm ''trace'' (dev_name d) (short_name sg)) (signals d)
                @ [Ros nm, After_addDownsampledSignal (dev_name d) ''rosPublish.trigger'' 1]
                @ concat (map (\<lambda>sg. export_calls d (short_name sg)) (signals d))\<rparr>))"
proof -
  have found: "\<forall>n\<in>set (map short_name (signals d)). device_signal d n \<noteq> None"
    using device_signal_found by fastforce
  let ?r0 = "\<lparr>name = nm, device = Some d, tracer = Some ''trace'',
      tracedSignals = [(''device'', [])], device_signals_names = Some [], ros = None\<rparr>"
  have loop1: "foreach (signals d) (\<lambda>sg.
         block [
           traced_append ''device'' (short_name sg),
           names_append (short_name sg)
         ]) (?r0, q) =
     (None, (?r0\<lparr>tracedSignals := [(''device'', [] @ map short_name (signals d))],
             device_signals_names := Some ([] @ map short_name (signals d))\<rparr>, q))" for q
    by (rule names_loop) simp_all
  show ?thesis
    using nf found loop1
    by (simp add: init_def stmt_simps initialize_tracer_ok trace_loop_ok
        export_device_ok comp_def)
qed

section \<open>Exceptions are not caught\<close>

lemma run_ok_refl: "run_ok E s (e, s)"
  by (simp add: run_ok_def)

lemma propagates_skip: "propagates E skip"
  by (simp add: propagates_def skip_def run_ok_def)

lemma propagates_raise: "propagates E (raise e)"
  by (simp add: propagates_def raise_def run_ok_def)

lemma propagates_call: "propagates E (call E c)"
  by (auto simp: propagates_def call_def run_ok_def)

lemma propagates_assign_robot: "propagates E (assign (\<lambda>(r, p). (f r, p)))"
  by (auto simp: propagates_def assign_def run_ok_def)

lemma propagates_assign_append:
  "propagates E (assign (\<lambda>(r, p). (r, p\<lparr>autoRecomputedSignals := autoRecomputedSignals p @ zs\<rparr>)))"
  by (auto simp: propagates_def assign_def run_ok_def)

lemma propagatesD: "propagates E f \<Longrightarrow> run_ok E s (f s)"
  unfolding propagates_def by blast

lemma propagates_seq:
  assumes "propagates E f" "propagates E g"
  shows "propagates E (seq f g)"
  unfolding propagates_def
proof
  fix s
  obtain e1 s1 where f: "f s = (e1, s1)" by (cases "f s")
  from assms(1) have "run_ok E s (f s)" by (rule propagatesD)
  then obtain n1 y1 where 1: "calls (snd s1) = calls (snd s) @ n1"
      "autoRecomputedSignals (snd s1) = autoRecomputedSignals (snd s) @ y1"
      "\<forall>c\<in>set n1. fails E c \<longrightarrow> e1 = Some (Raised c)"
    unfolding run_ok_def f by auto
  show "run_ok E s (seq f g s)"
  proof (cases e1)
    case None
    obtain e2 s2 where g: "g s1 = (e2, s2)" by (cases "g s1")
    from assms(2) have "run_ok E s1 (g s1)" by (rule propagatesD)
    then obtain n2 y2 where 2: "calls (snd s2) = calls (snd s1) @ n2"
      "autoRecomputedSignals (snd s2) = autoRecomputedSignals (snd s1) @ y2"
      "\<forall>c\<in>set n2. fails E c \<longrightarrow> e2 = Some (Raised c)"
      unfolding run_ok_def g by auto
    have "seq f g s = (e2, s2)" using f g None by (simp add: seq_def)
    moreover have "calls (snd s2) = calls (snd s) @ (n1 @ n2)" using 1 2 by simp
    moreover have "autoRecomputedSignals (snd s2) = autoRecomputedSignals (snd s) @ (y1 @ y2)"
      using 1 2 by simp
    moreover have "\<forall>c\<in>set (n1 @ n2). fails E c \<longrightarrow> e2 = Some (Raised c)"
      using 1(3) 2(3) None by auto
    ultimately show ?thesis unfolding run_ok_def by (intro exI[of _ "n1 @ n2"] exI[of _ "y1 @ y2"]) simp
  next
    case (Some x)
    then have "seq f g s = (e1, s1)" using f by (simp add: seq_def)
    then show ?thesis using 1 unfolding run_ok_def by (intro exI[of _ n1] exI[of _ y1]) simp
  qed
qed

lemma propagates_block: "(\<And>c. c \<in> set cs \<Longrightarrow> propagates E c) \<Longrightarrow> propagates E (block cs)"
  by (induction cs) (simp_all add: propagates_skip propagates_seq)

lemma propagates_block_Nil: "propagates E (block [])"
  by (simp add: propagates_skip)

lemma propagates_block_Cons:
  "propagates E c \<Longrightarrow> propagates E (block cs) \<Longrightarrow> propagates E (block (c # cs))"
  by (simp add: propagates_seq)

lemma propagates_foreach: "(\<And>x. propagates E (body x)) \<Longrightarrow> propagates E (foreach xs body)"
  by (induction xs) (simp_all add: propagates_skip propagates_seq)

lemma propagates_with_device: "(\<And>d. propagates E (k d)) \<Longrightarrow> propagates E (with_device k)"
  by (auto simp: propagates_def with_device_def run_ok_refl split: option.splits)

lemma propagates_dep: "(\<And>a. propagates E (F a)) \<Longrightarrow> propagates E (\<lambda>s. F (g s) s)"
  by (simp add: propagates_def)

lemma propagates_initialize_tracer: "propagates E (initialize_tracer E)"
  unfolding propagates_def
proof
  fix s :: state
  obtain r p where s: "s = (r, p)" by (cases s)
  show "run_ok E s (initialize_tracer E s)"
  proof (cases "tracer r")
    case None
    have inner: "propagates E (\<lambda>(r, p).
             case tracer r of
               None \<Rightarrow> (Some AttributeError, (r, p))
             | Some t \<Rightarrow> call E (After_addSignal (dev_name d) (format_triger t)) (r, p))" for d
      using propagates_call
      by (auto simp: propagates_def run_ok_refl split: option.splits)
    have "propagates E (block [
           call E (TracerRealTime ''trace''),
           assign (\<lambda>(r, p). (r\<lparr>tracer := Some ''trace''\<rparr>, p)),
           call E (Tracer_setBufferSize ''trace'' tracerSize),
           call E (Tracer_open ''trace'' (log_dir E) ''dg_'' ''.dat''),
           with_device (\<lambda>d (r, p).
             case tracer r of
               None \<Rightarrow> (Some AttributeError, (r, p))
             | Some t \<Rightarrow> call E (After_addSignal (dev_name d) (format_triger t)) (r, p))
         ])"
      by (rule propagates_block)
        (auto intro: propagates_call propagates_assign_robot propagates_with_device inner)
    then show ?thesis using None s
      by (simp add: initialize_tracer_def propagates_def)
  next
    case (Some t)
    then show ?thesis using s by (simp add: initialize_tracer_def run_ok_refl)
  qed
qed

lemma propagates_add_trace: "propagates E (add_trace E e n)"
  unfolding propagates_def
proof
  fix s :: state
  obtain r p where s: "s = (r, p)" by (cases s)
  show "run_ok E s (add_trace E e n s)"
  proof (cases "tracer r")
    case None
    then show ?thesis using s by (simp add: add_trace_def run_ok_refl)
  next
    case (Some t)
    have "propagates E (block [
           assign (\<lambda>(r, p). (r, p\<lparr>autoRecomputedSignals :=
             autoRecomputedSignals p @ [format_dot e n]\<rparr>)),
           call E (AddTrace (name r) t e n)
         ])"
      by (rule propagates_block) (auto intro: propagates_call propagates_assign_append)
    then show ?thesis using Some s
      by (simp add: add_trace_def propagates_def)
  qed
qed

lemma propagates_start_tracer: "propagates E (start_tracer E)"
  using propagates_call
  by (auto simp: propagates_def start_tracer_def run_ok_refl split: option.splits)

lemma propagates_stop_tracer: "propagates E (stop_tracer E)"
  unfolding propagates_def
proof
  fix s :: state
  obtain r p where s: "s = (r, p)" by (cases s)
  show "run_ok E s (stop_tracer E s)"
  proof (cases "tracer r")
    case None
    then show ?thesis using s by (simp add: stop_tracer_def run_ok_refl)
  next
    case (Some t)
    have loop: "propagates E (\<lambda>(r, p). foreach (autoRecomputedSignals p) (\<lambda>s.
              with_device (\<lambda>d. call E (After_rmSignal (dev_name d) s))) (r, p))"
    proof -
      have "propagates E (foreach xs (\<lambda>s.
              with_device (\<lambda>d. call E (After_rmSignal (dev_name d) s))))" for xs
        by (intro propagates_foreach propagates_with_device propagates_call)
      then show ?thesis by (simp add: propagates_def)
    qed
    have "propagates E (block [
           call E (Tracer_dump t),
           call E (Tracer_stop t),
           call E (Tracer_close t),
           call E (Tracer_clear t),
           (\<lambda>(r, p). foreach (autoRecomputedSignals p) (\<lambda>s.
              with_device (\<lambda>d. call E (After_rmSignal (dev_name d) s))) (r, p)),
           assign (\<lambda>(r, p). (r\<lparr>tracer := None\<rparr>, p))
         ])"
      by (rule propagates_block) (auto intro: propagates_call propagates_assign_robot loop)
    then show ?thesis using Some s
      by (simp add: stop_tracer_def propagates_def)
  qed
qed

lemma propagates_del: "propagates E (del E)"
  using propagates_stop_tracer[of E]
  by (auto simp: propagates_def del_def run_ok_refl split: option.splits)

lemma propagates_export_signal: "propagates E (export_signal_to_ros E sg tn)"
  unfolding propagates_def
proof
  fix s :: state
  obtain r p where s: "s = (r, p)" by (cases s)
  show "run_ok E s (export_signal_to_ros E sg tn s)"
  proof (cases "ros r")
    case None
    then show ?thesis using s by (simp add: export_signal_to_ros_def run_ok_refl Let_def)
  next
    case (Some b)
    have "propagates E (block [
           call E (RosPublish_add ''vector'' n (''/dg__'' @ n)),
           call E (Plug sg n)
         ])" for n
      by (rule propagates_block) (auto intro: propagates_call)
    then show ?thesis using Some s
      by (simp add: export_signal_to_ros_def propagates_def Let_def)
  qed
qed

lemma propagates_export_device: "propagates E (export_device_dg_to_ros E)"
proof -
  have body: "propagates E (with_device (\<lambda>d.
         case device_signal d sig_name of
           None \<Rightarrow> raise (LookupFailed sig_name)
         | Some sg \<Rightarrow> export_signal_to_ros E sg (Some (''device__'' @ sig_name))))" for sig_name
    by (rule propagates_with_device)
      (auto intro: propagates_raise propagates_export_signal split: option.splits)
  have "propagates E (foreach xs (\<lambda>sig_name. with_device (\<lambda>d.
         case device_signal d sig_name of
           None \<Rightarrow> raise (LookupFailed sig_name)
         | Some sg \<Rightarrow> export_signal_to_ros E sg (Some (''device__'' @ sig_name)))))" for xs
    by (intro propagates_foreach body)
  then show ?thesis
    by (simp add: propagates_def export_device_dg_to_ros_def run_ok_refl split: option.splits)
qed

lemma propagates_traced_append: "propagates E (traced_append k n)"
  by (auto simp: propagates_def traced_append_def run_ok_def split: option.splits)

lemma propagates_names_append: "propagates E (names_append n)"
  by (auto simp: propagates_def names_append_def run_ok_def split: option.splits)

lemma propagates_init_body:
  "propagates E (block [
       initialize_tracer E,
       assign (\<lambda>(r, p). (r\<lparr>tracedSignals := [(''device'', [])]\<rparr>, p)),
       assign (\<lambda>(r, p). (r\<lparr>device_signals_names := Some []\<rparr>, p)),
       with_device (\<lambda>d. foreach (signals d) (\<lambda>sg.
         block [
           traced_append ''device'' (short_name sg),
           names_append (short_name sg)
         ])),
       (\<lambda>(r, p).
          case map_of (tracedSignals r) ''device'' of
            None \<Rightarrow> (Some KeyError, (r, p))
          | Some ss \<Rightarrow> foreach ss (\<lambda>s.
              with_device (\<lambda>d. add_trace E (dev_name d) s)) (r, p)),
       call E (Ros nm),
       assign (\<lambda>(r, p). (r\<lparr>ros := Some nm\<rparr>, p)),
       with_device (\<lambda>d. call E (After_addDownsampledSignal (dev_name d) ''rosPublish.trigger'' 1)),
       export_device_dg_to_ros E
     ])"
proof -
  have names: "propagates E (with_device (\<lambda>d. foreach (signals d) (\<lambda>sg.
         block [
           traced_append ''device'' (short_name sg),
           names_append (short_name sg)
         ])))"
  proof (rule propagates_with_device)
    fix d
    have b: "propagates E (block [
           traced_append ''device'' (short_name sg),
           names_append (short_name sg)
         ])" for sg
      by (rule propagates_block) (auto intro: propagates_traced_append propagates_names_append)
    show "propagates E (foreach (signals d) (\<lambda>sg.
         block [
           traced_append ''device'' (short_name sg),
           names_append (short_name sg)
         ]))"
      by (rule propagates_foreach) (rule b)
  qed
  have traces: "propagates E (\<lambda>(r, p).
          case map_of (tracedSignals r) ''device'' of
            None \<Rightarrow> (Some KeyError, (r, p))
          | Some ss \<Rightarrow> foreach ss (\<lambda>s.
              with_device (\<lambda>d. add_trace E (dev_name d) s)) (r, p))"
  proof -
    have "propagates E (foreach xs (\<lambda>s. with_device (\<lambda>d. add_trace E (dev_name d) s)))" for xs
      by (intro propagates_foreach propagates_with_device propagates_add_trace)
    then show ?thesis by (simp add: propagates_def run_ok_refl split: option.splits)
  qed
  show ?thesis
    by (intro propagates_block_Cons propagates_block_Nil propagates_initialize_tracer
        propagates_assign_robot names traces propagates_call propagates_with_device
        propagates_export_device)
qed

lemma init_propagates:
  "\<exists>new ys. calls (snd (snd (init E nm dev trc p))) = calls p @ new \<and>
      autoRecomputedSignals (snd (snd (init E nm dev trc p))) = autoRecomputedSignals p @ ys \<and>
      (\<forall>c\<in>set new. fails E c \<longrightarrow> fst (init E nm dev trc p) = Some (Raised c))"
proof -
  let ?s = "(\<lparr>name = nm, device = dev, tracer = trc, tracedSignals = [],
          device_signals_names = None, ros = None\<rparr>, p)"
  have "run_ok E ?s (init E nm dev trc p)"
    using propagates_init_body[of E nm] by (simp add: propagates_def init_def)
  then show ?thesis by (simp add: run_ok_def)
qed

section \<open>The first exception is the outcome\<close>

lemma first_raise_append:
  "first_raise E (as @ bs) =
     (case first_raise E as of None \<Rightarrow> first_raise E bs | Some e \<Rightarrow> Some e)"
  by (induction E as rule: first_raise.induct) simp_all

lemma attempts_skip: "attempts E skip (r, p) [] r"
  by (simp add: attempts_def skip_def)

lemma attempts_assign_robot: "attempts E (assign (\<lambda>(r, p). (g r, p))) (r, p) [] (g r)"
  by (simp add: attempts_def assign_def)

lemma attempts_call: "attempts E (call E c) (r, p) [Call c] r"
  by (simp add: attempts_def call_def)

lemma attempts_seq:
  assumes "attempts E f s as r1" and "\<And>p1. attempts E g (r1, p1) bs r2"
  shows "attempts E (seq f g) s (as @ bs) r2"
proof (cases "fst (f s)")
  case None
  with assms(1) have r1: "fst (snd (f s)) = r1" and fr: "first_raise E as = None"
    by (simp_all add: attempts_def)
  then have "snd (f s) = (r1, snd (snd (f s)))" by (metis prod.collapse)
  with None have "seq f g s = g (r1, snd (snd (f s)))"
    by (cases "f s") (simp add: seq_def)
  with assms(2)[of "snd (snd (f s))"] fr show ?thesis
    by (simp add: attempts_def first_raise_append)
next
  case (Some e)
  then have "seq f g s = (Some e, snd (f s))"
    by (cases "f s") (simp add: seq_def)
  moreover have "first_raise E as = Some e"
    using Some assms(1) by (simp add: attempts_def)
  ultimately show ?thesis
    by (simp add: attempts_def first_raise_append)
qed

lemma attempts_block_Nil: "attempts E (block []) (r, p) [] r"
  by (simp add: attempts_skip)

lemma attempts_foreach:
  assumes "\<And>x p. attempts E (body x) (r, p) (sc x) r"
  shows "attempts E (foreach xs body) (r, p) (concat (map sc xs)) r"
proof (induction xs arbitrary: p)
  case Nil
  show ?case by (simp add: attempts_skip)
next
  case (Cons x xs)
  have "attempts E (seq (body x) (foreach xs body)) (r, p) (sc x @ concat (map sc xs)) r"
    by (rule attempts_seq) (rule assms, rule Cons)
  then show ?case by simp
qed

lemma attempts_cong: "f s = g s \<Longrightarrow> attempts E g s as r' \<Longrightarrow> attempts E f s as r'"
  by (simp add: attempts_def)

lemma attemptsD: "attempts E f s as r' \<Longrightarrow> fst (f s) = first_raise E as"
  by (simp add: attempts_def)

lemma initialize_tracer_outcome:
  "fst (initialize_tracer E (r, p)) = first_raise E (initialize_tracer_attempts E r)"
  by (simp add: initialize_tracer_def initialize_tracer_attempts_def stmt_simps format_triger_def
      split: option.splits)

lemma add_trace_outcome:
  "fst (add_trace E e n (r, p)) = first_raise E (add_trace_attempts r e n)"
  by (simp add: add_trace_def add_trace_attempts_def stmt_simps split: option.splits)

lemma start_tracer_outcome:
  "fst (start_tracer E (r, p)) = first_raise E (start_tracer_attempts r)"
  by (simp add: start_tracer_def start_tracer_attempts_def stmt_simps split: option.splits)

lemma rm_loop_outcome:
  "fst (foreach xs (\<lambda>s. with_device (\<lambda>d. call E (After_rmSignal (dev_name d) s))) (r, p)) =
   first_raise E (map (\<lambda>s. case device r of
                        None \<Rightarrow> Fault AttributeError
                      | Some d \<Rightarrow> Call (After_rmSignal (dev_name d) s)) xs)"
  by (induction xs arbitrary: p) (simp_all add: stmt_simps split: option.splits)

lemma stop_tracer_outcome:
  "fst (stop_tracer E (r, p)) = first_raise E (stop_tracer_attempts r p)"
proof (cases "tracer r")
  case None
  then show ?thesis by (simp add: stop_tracer_def stop_tracer_attempts_def)
next
  case (Some t)
  have "fst (seq (\<lambda>(r, p). foreach (autoRecomputedSignals p) (\<lambda>s.
              with_device (\<lambda>d. call E (After_rmSignal (dev_name d) s))) (r, p))
           (seq (assign (\<lambda>(r, p). (r\<lparr>tracer := None\<rparr>, p))) skip) (r, q)) =
        first_raise E (map (\<lambda>s. case device r of
                        None \<Rightarrow> Fault AttributeError
                      | Some d \<Rightarrow> Call (After_rmSignal (dev_name d) s)) (autoRecomputedSignals q))" for q
    using rm_loop_outcome[of "autoRecomputedSignals q" E r q]
    by (cases "foreach (autoRecomputedSignals q) (\<lambda>s.
              with_device (\<lambda>d. call E (After_rmSignal (dev_name d) s))) (r, q)")
      (auto simp: seq_def assign_def skip_def split: option.splits)
  then show ?thesis using Some
    by (simp add: stop_tracer_def stop_tracer_attempts_def seq_def[of "call E c" for c] call_apply)
qed

lemma del_outcome:
  "fst (del E (r, p)) = first_raise E (stop_tracer_attempts r p)"
  using stop_tracer_outcome[of E r p]
  by (simp add: del_def stop_tracer_attempts_def split: option.splits)

lemma attempts_export_signal:
  "attempts E (export_signal_to_ros E sg tn) (r, p) (export_signal_attempts r sg tn) r"
  by (simp add: attempts_def export_signal_to_ros_def export_signal_attempts_def stmt_simps
      Let_def split: option.splits)

lemma export_signal_outcome:
  "fst (export_signal_to_ros E sg tn (r, p)) = first_raise E (export_signal_attempts r sg tn)"
  using attempts_export_signal by (rule attemptsD)

lemma attempts_export_device:
  "attempts E (export_device_dg_to_ros E) (r, p) (export_device_attempts r) r"
proof (cases "device_signals_names r")
  case None
  then show ?thesis
    by (simp add: attempts_def export_device_dg_to_ros_def export_device_attempts_def)
next
  case (Some ns)
  have body: "attempts E (with_device (\<lambda>d.
             case device_signal d n of
               None \<Rightarrow> raise (LookupFailed n)
             | Some sg \<Rightarrow> export_signal_to_ros E sg (Some (''device__'' @ n)))) (r, q)
        (case device r of
              None \<Rightarrow> [Fault AttributeError]
            | Some d \<Rightarrow>
                (case device_signal d n of
                   None \<Rightarrow> [Fault (LookupFailed n)]
                 | Some sg \<Rightarrow> export_signal_attempts r sg (Some (''device__'' @ n)))) r" for n q
    using attempts_export_signal[of E _ "Some (''device__'' @ n)" r q]
    by (simp add: attempts_def with_device_apply raise_def split: option.splits)
  have "attempts E (foreach ns (\<lambda>n. with_device (\<lambda>d.
             case device_signal d n of
               None \<Rightarrow> raise (LookupFailed n)
             | Some sg \<Rightarrow> export_signal_to_ros E sg (Some (''device__'' @ n))))) (r, p)
        (concat (map (\<lambda>n. case device r of
              None \<Rightarrow> [Fault AttributeError]
            | Some d \<Rightarrow>
                (case device_signal d n of
                   None \<Rightarrow> [Fault (LookupFailed n)]
                 | Some sg \<Rightarrow> export_signal_attempts r sg (Some (''device__'' @ n)))) ns)) r"
    by (rule attempts_foreach) (rule body)
  then show ?thesis using Some
    by (simp add: attempts_def export_device_dg_to_ros_def export_device_attempts_def)
qed

lemma export_device_outcome:
  "fst (export_device_dg_to_ros E (r, p)) = first_raise E (export_device_attempts r)"
  using attempts_export_device by (rule attemptsD)

lemma attempts_initialize_tracer:
  "device r = Some d \<Longrightarrow>
   attempts E (initialize_tracer E) (r, p) (initialize_tracer_attempts E r)
     (r\<lparr>tracer := Some (case tracer r of None \<Rightarrow> ''trace'' | Some t \<Rightarrow> t)\<rparr>)"
  by (simp add: attempts_def initialize_tracer_def initialize_tracer_attempts_def stmt_simps
      format_triger_def split: option.splits)

lemma attempts_trace_loop:
  assumes "tracer r = Some t" and "device r = Some d"
  shows "attempts E (foreach ss (\<lambda>s. with_device (\<lambda>d. add_trace E (dev_name d) s))) (r, p)
     (concat (map (\<lambda>s. [Call (AddTrace (name r) t (dev_name d) s)]) ss)) r"
proof (rule attempts_foreach)
  fix s q
  show "attempts E (with_device (\<lambda>d. add_trace E (dev_name d) s)) (r, q)
      [Call (AddTrace (name r) t (dev_name d) s)] r"
    using assms by (simp add: attempts_def with_device_apply add_trace_def stmt_simps)
qed

lemma export_attempts_built:
  assumes "ros r = Some b" and "device r = Some d"
    and "device_signals_names r = Some (map short_name (signals d))"
  shows "export_device_attempts r =
    concat (map (\<lambda>sg. map Call (export_calls d (short_name sg))) (signals d))"
proof -
  have "(case device_signal d (short_name sg) of
           None \<Rightarrow> [Fault (LookupFailed (short_name sg))]
         | Some sg' \<Rightarrow> export_signal_attempts r sg' (Some (''device__'' @ short_name sg))) =
        map Call (export_calls d (short_name sg))" if "sg \<in> set (signals d)" for sg
    using device_signal_found[OF that] assms(1)
    by (auto simp: export_calls_def publication_def export_signal_attempts_def Let_def)
  then show ?thesis
    using assms by (simp add: export_device_attempts_def comp_def cong: map_cong)
qed

lemma init_outcome_no_device:
  "fst (init E nm None trc p) = first_raise E (init_attempts E nm None trc)"
  by (cases trc)
    (simp_all add: init_def init_attempts_def initialize_tracer_def stmt_simps)

lemma attempts_block_Cons:
  "attempts E c s as r1 \<Longrightarrow> (\<And>p1. attempts E (block cs) (r1, p1) bs r2) \<Longrightarrow>
   attempts E (block (c # cs)) s (as @ bs) r2"
  by (simp add: attempts_seq)

lemma init_outcome_device:
  "fst (init E nm (Some d) trc p) = first_raise E (init_attempts E nm (Some d) trc)"
proof -
  let ?t = "case trc of None \<Rightarrow> ''trace'' | Some t \<Rightarrow> t"
  let ?ns = "map short_name (signals d)"
  let ?r0 = "\<lparr>name = nm, device = Some d, tracer = trc, tracedSignals = [],
          device_signals_names = None, ros = None\<rparr>"
  let ?r1 = "?r0\<lparr>tracer := Some ?t\<rparr>"
  let ?r2 = "?r1\<lparr>tracedSignals := [(''device'', [])]\<rparr>"
  let ?r3 = "?r2\<lparr>device_signals_names := Some []\<rparr>"
  let ?r4 = "?r3\<lparr>tracedSignals := [(''device'', [] @ ?ns)],
                 device_signals_names := Some ([] @ ?ns)\<rparr>"
  let ?r5 = "?r4\<lparr>ros := Some nm\<rparr>"
  have s1: "attempts E (initialize_tracer E) (?r0, p) (initialize_tracer_attempts E ?r0) ?r1"
    using attempts_initialize_tracer[of ?r0 d E p] by simp
  have s2: "attempts E (assign (\<lambda>(r, p). (r\<lparr>tracedSignals := [(''device'', [])]\<rparr>, p)))
      (?r1, q) [] ?r2" for q
    by (rule attempts_assign_robot)
  have s3: "attempts E (assign (\<lambda>(r, p). (r\<lparr>device_signals_names := Some []\<rparr>, p)))
      (?r2, q) [] ?r3" for q
    by (rule attempts_assign_robot)
  have s4: "attempts E (with_device (\<lambda>d. foreach (signals d) (\<lambda>sg.
         block [
           traced_append ''device'' (short_name sg),
           names_append (short_name sg)
         ]))) (?r3, q) [] ?r4" for q
    using names_loop[of ?r3 "[]" "[]" "signals d" q]
    by (simp add: attempts_def with_device_apply)
  have s5: "attempts E (\<lambda>(r, p).
          case map_of (tracedSignals r) ''device'' of
            None \<Rightarrow> (Some KeyError, (r, p))
          | Some ss \<Rightarrow> foreach ss (\<lambda>s.
              with_device (\<lambda>d. add_trace E (dev_name d) s)) (r, p)) (?r4, q)
       (concat (map (\<lambda>s. [Call (AddTrace (name ?r4) ?t (dev_name d) s)]) ?ns)) ?r4" for q
    using attempts_trace_loop[of ?r4 ?t d E ?ns q]
    by (simp add: attempts_def)
  have s6: "attempts E (call E (Ros nm)) (?r4, q) [Call (Ros nm)] ?r4" for q
    by (rule attempts_call)
  have s7: "attempts E (assign (\<lambda>(r, p). (r\<lparr>ros := Some nm\<rparr>, p))) (?r4, q) [] ?r5" for q
    by (rule attempts_assign_robot)
  have s8: "attempts E (with_device (\<lambda>d.
        call E (After_addDownsampledSignal (dev_name d) ''rosPublish.trigger'' 1))) (?r5, q)
      [Call (After_addDownsampledSignal (dev_name d) ''rosPublish.trigger'' 1)] ?r5" for q
    by (simp add: attempts_def with_device_apply call_apply)
  have s9: "attempts E (export_device_dg_to_ros E) (?r5, q) (export_device_attempts ?r5) ?r5" for q
    by (rule attempts_export_device)
  have all: "attempts E (block [
       initialize_tracer E,
       assign (\<lambda>(r, p). (r\<lparr>tracedSignals := [(''device'', [])]\<rparr>, p)),
       assign (\<lambda>(r, p). (r\<lparr>device_signals_names := Some []\<rparr>, p)),
       with_device (\<lambda>d. foreach (signals d) (\<lambda>sg.
         block [
           traced_append ''device'' (short_name sg),
           names_append (short_name sg)
         ])),
       (\<lambda>(r, p).
          case map_of (tracedSignals r) ''device'' of
            None \<Rightarrow> (Some KeyError, (r, p))
          | Some ss \<Rightarrow> foreach ss (\<lambda>s.
              with_device (\<lambda>d. add_trace E (dev_name d) s)) (r, p)),
       call E (Ros nm),
       assign (\<lambda>(r, p). (r\<lparr>ros := Some nm\<rparr>, p)),
       with_device (\<lambda>d. call E (After_addDownsampledSignal (dev_name d) ''rosPublish.trigger'' 1)),
       export_device_dg_to_ros E
     ]) (?r0, p)
     (initialize_tracer_attempts E ?r0 @ [] @ [] @ [] @
      concat (map (\<lambda>s. [Call (AddTrace (name ?r4) ?t (dev_name d) s)]) ?ns) @
      [Call (Ros nm)] @ [] @
      [Call (After_addDownsampledSignal (dev_name d) ''rosPublish.trigger'' 1)] @
      export_device_attempts ?r5 @ []) ?r5"
    apply (rule attempts_block_Cons[OF s1])
    apply (rule attempts_block_Cons[OF s2])
    apply (rule attempts_block_Cons[OF s3])
    apply (rule attempts_block_Cons[OF s4])
    apply (rule attempts_block_Cons[OF s5])
    apply (rule attempts_block_Cons[OF s6])
    apply (rule attempts_block_Cons[OF s7])
    apply (rule attempts_block_Cons[OF s8])
    apply (rule attempts_block_Cons[OF s9])
    apply (rule attempts_block_Nil)
    done
  have ex: "export_device_attempts ?r5 =
      concat (map (\<lambda>sg. map Call (export_calls d (short_name sg))) (signals d))"
    by (rule export_attempts_built[of _ nm]) simp_all
  have "initialize_tracer_attempts E ?r0 @ [] @ [] @ [] @
      concat (map (\<lambda>s. [Call (AddTrace (name ?r4) ?t (dev_name d) s)]) ?ns) @
      [Call (Ros nm)] @ [] @
      [Call (After_addDownsampledSignal (dev_name d) ''rosPublish.trigger'' 1)] @
      export_device_attempts ?r5 @ [] = init_attempts E nm (Some d) trc"
    unfolding ex
    by (cases trc) (simp_all add: init_attempts_def initialize_tracer_attempts_def comp_def)
  with all show ?thesis
    by (simp add: attempts_def init_def)
qed

lemma init_outcome:
  "fst (init E nm dev trc p) = first_raise E (init_attempts E nm dev trc)"
  by (cases dev) (simp_all only: init_outcome_no_device init_outcome_device)

section \<open>The example robot\<close>

lemma built0_eq:
  "init env0 ''robot'' (Some device0) None process0 =
    (None, (\<lparr>name = ''robot'', device = Some device0, tracer = Some ''trace'',
              tracedSignals = [(''device'', [''q'', ''dq''])],
              device_signals_names = Some [''q'', ''dq''], ros = Some ''robot''\<rparr>,
            \<lparr>autoRecomputedSignals = [''dev.q'', ''dev.dq''],
              calls = [TracerRealTime ''trace'', Tracer_setBufferSize ''trace'' tracerSize,
                Tracer_open ''trace'' ''/home/robot/.dynamic_graph_manager/2020_01_02_03_04_05''
                  ''dg_'' ''.dat'',
                After_addSignal ''dev'' ''trace.triger'',
                AddTrace ''robot'' ''trace'' ''dev'' ''q'',
                AddTrace ''robot'' ''trace'' ''dev'' ''dq'',
                Ros ''robot'',
                After_addDownsampledSignal ''dev'' ''rosPublish.trigger'' 1,
                RosPublish_add ''vector'' ''device__q'' ''/dg__device__q'',
                Plug (Signal ''Device(dev)::output(vector)::q'') ''device__q'',
                RosPublish_add ''vector'' ''device__dq'' ''/dg__device__dq'',
                Plug (Signal ''Device(dev)::output(vector)::dq'') ''device__dq'']\<rparr>))"
proof -
  have nf: "\<forall>c. \<not> fails env0 c" by (simp add: env0_def)
  have sn: "short_name (Signal ''Device(dev)::output(vector)::q'') = ''q''"
    "short_name (Signal ''Device(dev)::output(vector)::dq'') = ''dq''"
    by (simp_all add: short_name_def)
  have ld: "log_dir env0 = ''/home/robot/.dynamic_graph_manager/2020_01_02_03_04_05''"
    by (simp add: log_dir_def env0_def)
  show ?thesis
    by (simp add: init_ok_created[OF nf] device0_def process0_def sn ld tracer_setup_def
        format_dot_def export_calls_def device_signal_def publication_def)
qed

lemma env0_quiet: "\<forall>c. \<not> fails env0 c"
  by (simp add: env0_def)

lemma built0_state:
  "built0 =
    (\<lparr>name = ''robot'', device = Some device0, tracer = Some ''trace'',
              tracedSignals = [(''device'', [''q'', ''dq''])],
              device_signals_names = Some [''q'', ''dq''], ros = Some ''robot''\<rparr>,
            \<lparr>autoRecomputedSignals = [''dev.q'', ''dev.dq''],
              calls = [TracerRealTime ''trace'', Tracer_setBufferSize ''trace'' tracerSize,
                Tracer_open ''trace'' ''/home/robot/.dynamic_graph_manager/2020_01_02_03_04_05''
                  ''dg_'' ''.dat'',
                After_addSignal ''dev'' ''trace.triger'',
                AddTrace ''robot'' ''trace'' ''dev'' ''q'',
                AddTrace ''robot'' ''trace'' ''dev'' ''dq'',
                Ros ''robot'',
                After_addDownsampledSignal ''dev'' ''rosPublish.trigger'' 1,
                RosPublish_add ''vector'' ''device__q'' ''/dg__device__q'',
                Plug (Signal ''Device(dev)::output(vector)::q'') ''device__q'',
                RosPublish_add ''vector'' ''device__dq'' ''/dg__device__dq'',
                Plug (Signal ''Device(dev)::output(vector)::dq'') ''device__dq'']\<rparr>)"
  by (simp add: built0_def built0_eq)

lemma stop_built0:
  "stop_tracer env0 built0 =
     (None, (fst built0\<lparr>tracer := None\<rparr>,
       snd built0\<lparr>calls := calls (snd built0) @
         [Tracer_dump ''trace'', Tracer_stop ''trace'', Tracer_close ''trace'',
          Tracer_clear ''trace'', After_rmSignal ''dev'' ''dev.q'',
          After_rmSignal ''dev'' ''dev.dq'']\<rparr>))"
proof -
  have "stop_tracer env0 (fst built0, snd built0) =
     (None, (fst built0\<lparr>tracer := None\<rparr>,
       snd built0\<lparr>calls := calls (snd built0) @
         [Tracer_dump ''trace'', Tracer_stop ''trace'', Tracer_close ''trace'', Tracer_clear ''trace'']
         @ map (After_rmSignal (dev_name device0)) (autoRecomputedSignals (snd built0))\<rparr>))"
    by (rule stop_tracer_ok[OF env0_quiet]) (simp_all add: built0_state)
  then show ?thesis by (simp add: built0_state device0_def)
qed

lemma torn0_state:
  "torn0 = (fst built0\<lparr>tracer := None\<rparr>,
       snd built0\<lparr>calls := calls (snd built0) @
         [Tracer_dump ''trace'', Tracer_stop ''trace'', Tracer_close ''trace'',
          Tracer_clear ''trace'', After_rmSignal ''dev'' ''dev.q'',
          After_rmSignal ''dev'' ''dev.dq'']\<rparr>)"
  by (simp add: torn0_def stop_built0)

section \<open>Teardown\<close>

text \<open>
  Claim C3. A first call of \<open>stop_tracer\<close> that returns leaves the tracer reference
  \<open>None\<close>; from then on \<open>stop_tracer\<close> and \<open>__del__\<close> return at once, in any environment
  and process state: no call on the tracer, no removal from \<open>device.after\<close>, the robot
  and the process unchanged.
\<close>
theorem stop_tracer_twice:
  assumes "stop_tracer E (r, p) = (None, (r', p'))"
  shows "tracer r' = None \<and> stop_tracer E' (r', q) = (None, (r', q)) \<and>
    del E' (r', q) = (None, (r', q))"
proof -
  from assms have "tracer r' = None"
    using stop_tracer_frame by blast
  then show ?thesis
    by (simp add: stop_tracer_def del_def)
qed

theorem stop_tracer_twice_witness:
  "stop_tracer env0 built0 = (None, torn0) \<and> tracer (fst torn0) = None \<and>
   stop_tracer env0 torn0 = (None, torn0) \<and> del env0 torn0 = (None, torn0)"
proof -
  have h: "stop_tracer env0 (fst built0, snd built0) = (None, (fst torn0, snd torn0))"
    by (simp add: stop_built0 torn0_state)
  from stop_tracer_twice[OF h, of env0 "snd torn0"] h show ?thesis
    by simp
qed

text \<open>
  Claim C10. Once \<open>stop_tracer\<close> has returned, \<open>start_tracer\<close> starts nothing and
  \<open>add_trace\<close> neither appends to \<open>autoRecomputedSignals\<close> nor calls \<open>addTrace\<close>: both
  return the state they were given.
\<close>
theorem stopped_start_add_noop:
  assumes "stop_tracer E (r, p) = (None, (r', p'))"
  shows "start_tracer E' (r', q) = (None, (r', q)) \<and>
    add_trace E' entityName signalName (r', q) = (None, (r', q))"
proof -
  from assms have "tracer r' = None"
    using stop_tracer_frame by blast
  then show ?thesis
    by (simp add: start_tracer_def add_trace_def)
qed

theorem stopped_start_add_noop_witness:
  "stop_tracer env0 built0 = (None, torn0) \<and>
   start_tracer env0 torn0 = (None, torn0) \<and>
   add_trace env0 ''dev'' ''q'' torn0 = (None, torn0)"
proof -
  have h: "stop_tracer env0 (fst built0, snd built0) = (None, (fst torn0, snd torn0))"
    by (simp add: stop_built0 torn0_state)
  from stopped_start_add_noop[OF h, of env0 "snd torn0" "''dev''" "''q''"] h show ?thesis
    by simp
qed

lemma removed_append: "removed d (xs @ ys) = removed d xs @ removed d ys"
  by (induction d xs rule: removed.induct) simp_all

lemma removed_rm: "removed d (map (After_rmSignal d) ns) = ns"
  by (induction ns) simp_all

lemma removed_rm_other: "d' \<noteq> d \<Longrightarrow> removed d' (map (After_rmSignal d) ns) = []"
  by (induction ns) simp_all

lemma scheduled_append: "scheduled d (xs @ ys) = scheduled d xs @ scheduled d ys"
  by (induction d xs rule: scheduled.induct) simp_all

lemma scheduled_rm: "scheduled d' (map (After_rmSignal d) ns) = []"
  by (induction ns) simp_all

lemma stop_tracer_list:
  "autoRecomputedSignals (snd (snd (stop_tracer E (r, p)))) = autoRecomputedSignals p"
  using stop_tracer_frame[of E r p] by (cases "stop_tracer E (r, p)") auto

text \<open>
  Claim C1, as amended. On a robot with a tracer and a device, when no call raises,
  \<open>stop_tracer\<close> calls \<open>device.after.rmSignal\<close> for each entry of
  \<open>autoRecomputedSignals\<close>, in order, on its own device: the names that \<open>add_trace\<close>
  recorded, of whichever robot. It removes nothing on another device and schedules
  nothing, and a name that is not in the list, such as \<open>rosPublish.trigger\<close>, is not
  removed. The trigger of the tracer itself, \<open><tracer name>.triger\<close>, is left out of
  the statement.
\<close>
theorem stop_tracer_removes_cleanup_list:
  assumes "\<forall>c. \<not> fails E c" and "tracer r = Some t" and "device r = Some d"
  shows "\<exists>p' new. stop_tracer E (r, p) = (None, (r\<lparr>tracer := None\<rparr>, p')) \<and>
      calls p' = calls p @ new \<and>
      filter (\<lambda>n. n \<noteq> format_triger t) (removed (dev_name d) new) =
        filter (\<lambda>n. n \<noteq> format_triger t) (autoRecomputedSignals p) \<and>
      (n \<noteq> format_triger t \<and> n \<notin> set (autoRecomputedSignals p) \<longrightarrow>
         n \<notin> set (removed (dev_name d) new)) \<and>
      (d' \<noteq> dev_name d \<longrightarrow> removed d' new = []) \<and>
      scheduled d'' new = []"
proof -
  let ?new = "[Tracer_dump t, Tracer_stop t, Tracer_close t, Tracer_clear t]
            @ map (After_rmSignal (dev_name d)) (autoRecomputedSignals p)"
  have "stop_tracer E (r, p) = (None, (r\<lparr>tracer := None\<rparr>, p\<lparr>calls := calls p @ ?new\<rparr>))"
    using assms(1,3,2) by (rule stop_tracer_ok)
  moreover have rm: "removed (dev_name d) ?new = autoRecomputedSignals p"
    by (simp add: removed_rm)
  moreover have "filter (\<lambda>n. n \<noteq> format_triger t) (removed (dev_name d) ?new) =
        filter (\<lambda>n. n \<noteq> format_triger t) (autoRecomputedSignals p)"
    by (simp only: rm)
  moreover have "n \<noteq> format_triger t \<and> n \<notin> set (autoRecomputedSignals p) \<longrightarrow>
         n \<notin> set (removed (dev_name d) ?new)"
    by (simp only: rm) simp
  moreover have "d' \<noteq> dev_name d \<longrightarrow> removed d' ?new = []"
    by (simp add: removed_rm_other)
  moreover have "scheduled d'' ?new = []"
    by (simp add: scheduled_rm)
  ultimately show ?thesis
    by (intro exI[of _ "p\<lparr>calls := calls p @ ?new\<rparr>"] exI[of _ ?new]) simp
qed

theorem stop_tracer_removes_cleanup_list_witness:
  "(\<forall>c. \<not> fails env0 c) \<and> tracer (fst built0) = Some ''trace'' \<and>
   device (fst built0) = Some device0 \<and>
   autoRecomputedSignals (snd built0) = [''dev.q'', ''dev.dq''] \<and>
   (\<exists>p' new. stop_tracer env0 built0 = (None, (fst built0\<lparr>tracer := None\<rparr>, p')) \<and>
      calls p' = calls (snd built0) @ new \<and>
      filter (\<lambda>n. n \<noteq> ''trace.triger'') (removed ''dev'' new) = [''dev.q'', ''dev.dq''] \<and>
      ''rosPublish.trigger'' \<notin> set (removed ''dev'' new) \<and>
      (''dev2'' \<noteq> ''dev'' \<longrightarrow> removed ''dev2'' new = []) \<and>
      scheduled ''dev'' new = [])"
proof -
  have t: "tracer (fst built0) = Some ''trace''" and d: "device (fst built0) = Some device0"
    and l: "autoRecomputedSignals (snd built0) = [''dev.q'', ''dev.dq'']"
    by (simp_all add: built0_state)
  have "\<exists>p' new. stop_tracer env0 (fst built0, snd built0) =
        (None, (fst built0\<lparr>tracer := None\<rparr>, p')) \<and>
      calls p' = calls (snd built0) @ new \<and>
      filter (\<lambda>n. n \<noteq> format_triger ''trace'') (removed (dev_name device0) new) =
        filter (\<lambda>n. n \<noteq> format_triger ''trace'') (autoRecomputedSignals (snd built0)) \<and>
      (''rosPublish.trigger'' \<noteq> format_triger ''trace'' \<and>
       ''rosPublish.trigger'' \<notin> set (autoRecomputedSignals (snd built0)) \<longrightarrow>
         ''rosPublish.trigger'' \<notin> set (removed (dev_name device0) new)) \<and>
      (''dev2'' \<noteq> dev_name device0 \<longrightarrow> removed ''dev2'' new = []) \<and>
      scheduled ''dev'' new = []"
    by (rule stop_tracer_removes_cleanup_list[OF env0_quiet t d])
  then show ?thesis
    using env0_quiet t d l by (simp add: device0_def format_triger_def)
qed

text \<open>
  Claim C1 as stated fails: the constructor schedules \<open>rosPublish.trigger\<close> through
  \<open>device.after.addDownsampledSignal\<close>, and \<open>stop_tracer\<close> does not remove it.
\<close>

theorem teardown_leaves_ros_trigger:
  "init env0 ''robot'' (Some device0) None process0 = (None, built0) \<and>
   stop_tracer env0 built0 = (None, torn0) \<and>
   ''rosPublish.trigger'' \<in> set (scheduled ''dev'' (calls (snd built0))) \<and>
   ''rosPublish.trigger'' \<notin> set (removed ''dev'' (calls (snd torn0)))"
proof -
  have "init env0 ''robot'' (Some device0) None process0 = (None, built0)"
    by (simp add: built0_eq built0_state)
  moreover have "stop_tracer env0 built0 = (None, torn0)"
    by (simp add: stop_built0 torn0_state)
  moreover have "''rosPublish.trigger'' \<in> set (scheduled ''dev'' (calls (snd built0)))"
    by (simp add: built0_state)
  moreover have "''rosPublish.trigger'' \<notin> set (removed ''dev'' (calls (snd torn0)))"
    by (simp add: torn0_state built0_state)
  ultimately show ?thesis by simp
qed

text \<open>
  Claim C9. Whatever happens in \<open>stop_tracer\<close>, \<open>autoRecomputedSignals\<close> is the list it
  was before, and the list after a later construction in the same process starts with
  it; when nothing raises, each of its entries has been passed to \<open>rmSignal\<close> of the
  device.
\<close>
theorem stop_tracer_keeps_cleanup_list:
  "autoRecomputedSignals (snd (snd (stop_tracer E (r, p)))) = autoRecomputedSignals p \<and>
   (\<exists>ys. autoRecomputedSignals
      (snd (snd (init E' nm dev trc (snd (snd (stop_tracer E (r, p))))))) =
        autoRecomputedSignals p @ ys) \<and>
   ((\<forall>c. \<not> fails E c) \<and> tracer r = Some t \<and> device r = Some d \<longrightarrow>
      fst (stop_tracer E (r, p)) = None \<and>
      removed (dev_name d) (drop (length (calls p)) (calls (snd (snd (stop_tracer E (r, p)))))) =
        autoRecomputedSignals p)"
proof -
  have 1: "autoRecomputedSignals (snd (snd (stop_tracer E (r, p)))) = autoRecomputedSignals p"
    by (rule stop_tracer_list)
  have 2: "\<exists>ys. autoRecomputedSignals
      (snd (snd (init E' nm dev trc (snd (snd (stop_tracer E (r, p))))))) =
        autoRecomputedSignals p @ ys"
    using init_propagates[of E' nm dev trc "snd (snd (stop_tracer E (r, p)))"] 1 by auto
  have 3: "fst (stop_tracer E (r, p)) = None \<and>
      removed (dev_name d) (drop (length (calls p)) (calls (snd (snd (stop_tracer E (r, p)))))) =
        autoRecomputedSignals p"
    if "\<forall>c. \<not> fails E c" "tracer r = Some t" "device r = Some d"
    using stop_tracer_ok[OF that(1) that(3) that(2), of p] by (simp add: removed_rm)
  from 1 2 3 show ?thesis by blast
qed

theorem stop_tracer_keeps_cleanup_list_witness:
  "(\<forall>c. \<not> fails env0 c) \<and> tracer (fst built0) = Some ''trace'' \<and>
   device (fst built0) = Some device0 \<and>
   autoRecomputedSignals (snd torn0) = [''dev.q'', ''dev.dq''] \<and>
   removed ''dev'' (drop (length (calls (snd built0))) (calls (snd torn0))) = [''dev.q'', ''dev.dq''] \<and>
   (\<exists>ys. autoRecomputedSignals (snd (snd (init env0 ''next'' (Some device0) None (snd torn0)))) =
      [''dev.q'', ''dev.dq''] @ ys)"
proof -
  have t: "tracer (fst built0) = Some ''trace''" and d: "device (fst built0) = Some device0"
    and l: "autoRecomputedSignals (snd built0) = [''dev.q'', ''dev.dq'']"
    by (simp_all add: built0_state)
  have s: "stop_tracer env0 (fst built0, snd built0) = (None, torn0)"
    by (simp add: stop_built0 torn0_state)
  from stop_tracer_keeps_cleanup_list[of env0 "fst built0" "snd built0" env0 "''next''"
      "Some device0" None "''trace''" device0]
  show ?thesis
    using env0_quiet t d l s by (simp add: device0_def)
qed

text \<open>
  Claim C8. The list is shared: an \<open>add_trace\<close> on one robot appends
  \<open><entity>.<signal>\<close> to the list the other robot reads, and \<open>stop_tracer\<close> of the other
  robot then calls \<open>rmSignal\<close> with that name on its own device.
\<close>
theorem cleanup_list_is_shared:
  assumes "\<forall>c. \<not> fails E c" and "tracer r1 = Some t1" and "tracer r2 = Some t2"
    and "device r2 = Some d2"
  shows "\<exists>p1 p2. add_trace E e s (r1, p) = (None, (r1, p1)) \<and>
      autoRecomputedSignals p1 = autoRecomputedSignals p @ [e @ ''.'' @ s] \<and>
      stop_tracer E (r2, p1) = (None, (r2\<lparr>tracer := None\<rparr>, p2)) \<and>
      After_rmSignal (dev_name d2) (e @ ''.'' @ s) \<in> set (drop (length (calls p1)) (calls p2))"
proof -
  let ?p1 = "p\<lparr>autoRecomputedSignals := autoRecomputedSignals p @ [format_dot e s],
      calls := calls p @ [AddTrace (name r1) t1 e s]\<rparr>"
  let ?p2 = "?p1\<lparr>calls := calls ?p1 @ [Tracer_dump t2, Tracer_stop t2, Tracer_close t2, Tracer_clear t2]
            @ map (After_rmSignal (dev_name d2)) (autoRecomputedSignals ?p1)\<rparr>"
  have a: "add_trace E e s (r1, p) = (None, (r1, ?p1))"
    using assms(1,2) by (rule add_trace_ok)
  have b: "stop_tracer E (r2, ?p1) = (None, (r2\<lparr>tracer := None\<rparr>, ?p2))"
    using assms(1,4,3) by (rule stop_tracer_ok)
  show ?thesis
    using a b by (intro exI[of _ ?p1] exI[of _ ?p2]) (simp add: format_dot_def)
qed

theorem cleanup_list_is_shared_witness:
  "(\<forall>c. \<not> fails env0 c) \<and> tracer (fst built0) = Some ''trace'' \<and>
   (\<exists>p1 p2. add_trace env0 ''dev'' ''extra'' (fst built0, snd built0) = (None, (fst built0, p1)) \<and>
      autoRecomputedSignals p1 = [''dev.q'', ''dev.dq'', ''dev.extra''] \<and>
      stop_tracer env0 (\<lparr>name = ''other'', device = Some \<lparr>dev_name = ''dev2'', signals = []\<rparr>,
          tracer = Some ''tr2'', tracedSignals = [(''device'', [])],
          device_signals_names = Some [], ros = Some ''other''\<rparr>, p1) =
        (None, (\<lparr>name = ''other'', device = Some \<lparr>dev_name = ''dev2'', signals = []\<rparr>,
          tracer = None, tracedSignals = [(''device'', [])],
          device_signals_names = Some [], ros = Some ''other''\<rparr>, p2)) \<and>
      After_rmSignal ''dev2'' ''dev.extra'' \<in> set (drop (length (calls p1)) (calls p2)))"
proof -
  let ?r2 = "\<lparr>name = ''other'', device = Some \<lparr>dev_name = ''dev2'', signals = []\<rparr>,
          tracer = Some ''tr2'', tracedSignals = [(''device'', [])],
          device_signals_names = Some [], ros = Some ''other''\<rparr>"
  have t: "tracer (fst built0) = Some ''trace''"
    and l: "autoRecomputedSignals (snd built0) = [''dev.q'', ''dev.dq'']"
    by (simp_all add: built0_state)
  have t2: "tracer ?r2 = Some ''tr2''" and d2: "device ?r2 = Some \<lparr>dev_name = ''dev2'', signals = []\<rparr>"
    by simp_all
  from cleanup_list_is_shared[OF env0_quiet t t2 d2, of "''dev''" "''extra''" "snd built0"]
  show ?thesis
    using env0_quiet t l by simp
qed

section \<open>Construction\<close>

lemma init_ok:
  assumes nf: "\<forall>c. \<not> fails E c"
  shows "init E nm (Some d) trc p =
    (None, (\<lparr>name = nm, device = Some d,
              tracer = Some (case trc of None \<Rightarrow> ''trace'' | Some t \<Rightarrow> t),
              tracedSignals = [(''device'', map short_name (signals d))],
              device_signals_names = Some (map short_name (signals d)), ros = Some nm\<rparr>,
            \<lparr>autoRecomputedSignals = autoRecomputedSignals p @
                 map (\<lambda>sg. format_dot (dev_name d) (short_name sg)) (signals d),
              calls = calls p
                @ (case trc of None \<Rightarrow> tracer_setup E (dev_name d) | Some t \<Rightarrow> [])
                @ map (\<lambda>sg. AddTrace nm (case trc of None \<Rightarrow> ''trace'' | Some t \<Rightarrow> t)
                      (dev_name d) (short_name sg)) (signals d)
                @ [Ros nm, After_addDownsampledSignal (dev_name d) ''rosPublish.trigger'' 1]
                @ concat (map (\<lambda>sg. export_calls d (short_name sg)) (signals d))\<rparr>))"
  by (cases trc) (simp_all add: init_ok_created[OF nf] init_ok_injected[OF nf])

lemma export_calls_found:
  assumes "sg \<in> set (signals d)"
  shows "\<exists>sg'\<in>set (signals d). short_name sg' = short_name sg \<and>
     export_calls d (short_name sg) = publication sg' (short_name sg)"
proof -
  from device_signal_found[OF assms] obtain sg' where f: "device_signal d (short_name sg) = Some sg'"
    by blast
  from device_signal_sound[OF f] f show ?thesis
    by (auto simp: export_calls_def)
qed

lemma length_filter_concat:
  "\<forall>x\<in>set xs. length (filter P (f x)) = k \<Longrightarrow>
   length (filter P (concat (map f xs))) = k * length xs"
  by (induction xs) simp_all

lemma filter_concat_all:
  "\<forall>x\<in>set xs. filter P (f x) = f x \<Longrightarrow> filter P (concat (map f xs)) = concat (map f xs)"
  by (induction xs) simp_all

lemma filter_map_none: "\<forall>x. \<not> P (f x) \<Longrightarrow> filter P (map f xs) = []"
  by (induction xs) simp_all

lemma filter_map_all: "\<forall>x. P (f x) \<Longrightarrow> filter P (map f xs) = map f xs"
  by (induction xs) simp_all

lemma export_calls_kinds:
  assumes "sg \<in> set (signals d)"
  shows "length (filter is_AddTrace (export_calls d (short_name sg))) = 0"
    and "length (filter is_RosPublish_add (export_calls d (short_name sg))) = 1"
    and "length (filter is_Plug (export_calls d (short_name sg))) = 1"
    and "filter (\<lambda>c. is_RosPublish_add c \<or> is_Plug c) (export_calls d (short_name sg)) =
           export_calls d (short_name sg)"
  using export_calls_found[OF assms] by (auto simp: publication_def)

lemma setup_kinds:
  "filter is_AddTrace (case trc of None \<Rightarrow> tracer_setup E dn | Some t \<Rightarrow> []) = []"
  "filter is_RosPublish_add (case trc of None \<Rightarrow> tracer_setup E dn | Some t \<Rightarrow> []) = []"
  "filter is_Plug (case trc of None \<Rightarrow> tracer_setup E dn | Some t \<Rightarrow> []) = []"
  "filter (\<lambda>c. is_RosPublish_add c \<or> is_Plug c)
     (case trc of None \<Rightarrow> tracer_setup E dn | Some t \<Rightarrow> []) = []"
  by (simp_all add: tracer_setup_def split: option.splits)

text \<open>
  Claim C2. When no call raises, constructing a robot on a device with \<open>N\<close> signals
  returns and makes exactly \<open>N\<close> calls of \<open>addTrace\<close>, \<open>N\<close> calls of \<open>rosPublish.add\<close>
  and \<open>N\<close> calls of \<open>plug\<close>.
\<close>
theorem init_registers_each_signal:
  assumes "\<forall>c. \<not> fails E c"
  shows "\<exists>s' new. init E nm (Some d) trc p = (None, s') \<and> calls (snd s') = calls p @ new \<and>
     length (filter is_AddTrace new) = length (signals d) \<and>
     length (filter is_RosPublish_add new) = length (signals d) \<and>
     length (filter is_Plug new) = length (signals d)"
proof -
  let ?t = "case trc of None \<Rightarrow> ''trace'' | Some t \<Rightarrow> t"
  let ?ex = "concat (map (\<lambda>sg. export_calls d (short_name sg)) (signals d))"
  let ?new = "(case trc of None \<Rightarrow> tracer_setup E (dev_name d) | Some t \<Rightarrow> [])
                @ map (\<lambda>sg. AddTrace nm ?t (dev_name d) (short_name sg)) (signals d)
                @ [Ros nm, After_addDownsampledSignal (dev_name d) ''rosPublish.trigger'' 1]
                @ ?ex"
  have a: "length (filter is_AddTrace ?ex) = 0 * length (signals d)"
    by (rule length_filter_concat) (simp add: export_calls_kinds)
  have b: "length (filter is_RosPublish_add ?ex) = 1 * length (signals d)"
    by (rule length_filter_concat) (simp add: export_calls_kinds)
  have c: "length (filter is_Plug ?ex) = 1 * length (signals d)"
    by (rule length_filter_concat) (simp add: export_calls_kinds)
  have "length (filter is_AddTrace ?new) = length (signals d)"
    using a by (simp add: setup_kinds filter_map_all)
  moreover have "length (filter is_RosPublish_add ?new) = length (signals d)"
    using b by (simp add: setup_kinds filter_map_none)
  moreover have "length (filter is_Plug ?new) = length (signals d)"
    using c by (simp add: setup_kinds filter_map_none)
  ultimately show ?thesis
    by (simp add: init_ok[OF assms])
qed

theorem init_registers_each_signal_witness:
  "(\<forall>c. \<not> fails env0 c) \<and> length (signals device0) = 2 \<and>
   (\<exists>s' new. init env0 ''robot'' (Some device0) None process0 = (None, s') \<and>
     calls (snd s') = calls process0 @ new \<and>
     length (filter is_AddTrace new) = 2 \<and>
     length (filter is_RosPublish_add new) = 2 \<and>
     length (filter is_Plug new) = 2)"
proof -
  have n: "length (signals device0) = 2" by (simp add: device0_def)
  from init_registers_each_signal[OF env0_quiet, of "''robot''" device0 None process0]
  show ?thesis using env0_quiet n by simp
qed

lemma built1_eq:
  "init env0 ''robot'' (Some device0) (Some ''tr'') process0 =
    (None, (\<lparr>name = ''robot'', device = Some device0, tracer = Some ''tr'',
              tracedSignals = [(''device'', [''q'', ''dq''])],
              device_signals_names = Some [''q'', ''dq''], ros = Some ''robot''\<rparr>,
            \<lparr>autoRecomputedSignals = [''dev.q'', ''dev.dq''],
              calls = [AddTrace ''robot'' ''tr'' ''dev'' ''q'',
                AddTrace ''robot'' ''tr'' ''dev'' ''dq'',
                Ros ''robot'',
                After_addDownsampledSignal ''dev'' ''rosPublish.trigger'' 1,
                RosPublish_add ''vector'' ''device__q'' ''/dg__device__q'',
                Plug (Signal ''Device(dev)::output(vector)::q'') ''device__q'',
                RosPublish_add ''vector'' ''device__dq'' ''/dg__device__dq'',
                Plug (Signal ''Device(dev)::output(vector)::dq'') ''device__dq'']\<rparr>))"
proof -
  have sn: "short_name (Signal ''Device(dev)::output(vector)::q'') = ''q''"
    "short_name (Signal ''Device(dev)::output(vector)::dq'') = ''dq''"
    by (simp_all add: short_name_def)
  show ?thesis
    by (simp add: init_ok_injected[OF env0_quiet] device0_def process0_def sn
        format_dot_def export_calls_def device_signal_def publication_def)
qed

lemma built1_state:
  "built1 = (\<lparr>name = ''robot'', device = Some device0, tracer = Some ''tr'',
              tracedSignals = [(''device'', [''q'', ''dq''])],
              device_signals_names = Some [''q'', ''dq''], ros = Some ''robot''\<rparr>,
            \<lparr>autoRecomputedSignals = [''dev.q'', ''dev.dq''],
              calls = [AddTrace ''robot'' ''tr'' ''dev'' ''q'',
                AddTrace ''robot'' ''tr'' ''dev'' ''dq'',
                Ros ''robot'',
                After_addDownsampledSignal ''dev'' ''rosPublish.trigger'' 1,
                RosPublish_add ''vector'' ''device__q'' ''/dg__device__q'',
                Plug (Signal ''Device(dev)::output(vector)::q'') ''device__q'',
                RosPublish_add ''vector'' ''device__dq'' ''/dg__device__dq'',
                Plug (Signal ''Device(dev)::output(vector)::dq'') ''device__dq'']\<rparr>)"
  by (simp add: built1_def built1_eq)

text \<open>
  Claim C5, as amended. When no call raises, the constructor returns with a tracer
  set: the injected one, or a new one named \<open>trace\<close>. Only the new one is sized to
  \<open>tracerSize = 2 ^ 20\<close>, opened at the resolved log directory with prefix \<open>dg_\<close> and
  suffix \<open>.dat\<close>, and has \<open>trace.triger\<close> scheduled in \<open>device.after\<close>; for an injected
  tracer the constructor makes none of these calls.
\<close>
theorem init_tracer_active:
  assumes "\<forall>c. \<not> fails E c"
  shows "\<exists>r' p'. init E nm (Some d) trc p = (None, (r', p')) \<and>
     tracer r' = Some (case trc of None \<Rightarrow> ''trace'' | Some t \<Rightarrow> t) \<and>
     calls p' = calls p
       @ (case trc of
            None \<Rightarrow> [TracerRealTime ''trace'', Tracer_setBufferSize ''trace'' (2 ^ 20),
                     Tracer_open ''trace'' (log_dir E) ''dg_'' ''.dat'',
                     After_addSignal (dev_name d) ''trace.triger'']
          | Some t \<Rightarrow> [])
       @ map (\<lambda>sg. AddTrace nm (case trc of None \<Rightarrow> ''trace'' | Some t \<Rightarrow> t)
             (dev_name d) (short_name sg)) (signals d)
       @ [Ros nm, After_addDownsampledSignal (dev_name d) ''rosPublish.trigger'' 1]
       @ concat (map (\<lambda>sg. export_calls d (short_name sg)) (signals d))"
  by (cases trc) (simp_all add: init_ok[OF assms] tracer_setup_def tracerSize_def)

theorem init_tracer_active_witness:
  "(\<forall>c. \<not> fails env0 c) \<and>
   (\<exists>r' p'. init env0 ''robot'' (Some device0) None process0 = (None, (r', p')) \<and>
     tracer r' = Some ''trace'' \<and>
     calls p' =
       [TracerRealTime ''trace'', Tracer_setBufferSize ''trace'' (2 ^ 20),
        Tracer_open ''trace'' ''/home/robot/.dynamic_graph_manager/2020_01_02_03_04_05''
          ''dg_'' ''.dat'',
        After_addSignal ''dev'' ''trace.triger'']
       @ map (\<lambda>sg. AddTrace ''robot'' ''trace'' ''dev'' (short_name sg)) (signals device0)
       @ [Ros ''robot'', After_addDownsampledSignal ''dev'' ''rosPublish.trigger'' 1]
       @ concat (map (\<lambda>sg. export_calls device0 (short_name sg)) (signals device0)))"
proof -
  have ld: "log_dir env0 = ''/home/robot/.dynamic_graph_manager/2020_01_02_03_04_05''"
    by (simp add: log_dir_def env0_def)
  have dn: "dev_name device0 = ''dev''" by (simp add: device0_def)
  have p0: "calls process0 = []" by (simp add: process0_def)
  from init_tracer_active[OF env0_quiet, of "''robot''" device0 None process0]
  show ?thesis using env0_quiet unfolding ld dn p0 by simp
qed

text \<open>
  Claim C5 as stated fails for an injected tracer: the constructor reuses it without
  sizing it, opening it or scheduling its trigger.
\<close>

theorem injected_tracer_not_opened:
  "init env0 ''robot'' (Some device0) (Some ''tr'') process0 = (None, built1) \<and>
   tracer (fst built1) = Some ''tr'' \<and>
   Tracer_setBufferSize ''tr'' tracerSize \<notin> set (calls (snd built1)) \<and>
   Tracer_open ''tr'' (log_dir env0) ''dg_'' ''.dat'' \<notin> set (calls (snd built1)) \<and>
   After_addSignal ''dev'' ''tr.triger'' \<notin> set (calls (snd built1))"
  by (simp add: built1_eq built1_state)

text \<open>
  Claim C6. When no call raises, the publication calls of the constructor are, for
  each device signal in order, \<open>rosPublish.add('vector', 'device__' + s, '/dg__device__' + s)\<close>
  followed by \<open>plug\<close> of the device signal of short name \<open>s\<close> into the signal
  \<open>'device__' + s\<close> of \<open>rosPublish\<close>; \<open>export_signal_to_ros\<close> registers the topic
  \<open>'/dg__' + topic_name\<close>, adding first and plugging second.
\<close>
theorem init_publishes_device_signals:
  assumes "\<forall>c. \<not> fails E c"
  shows "(\<exists>s' new. init E nm (Some d) trc p = (None, s') \<and> calls (snd s') = calls p @ new \<and>
      filter (\<lambda>c. is_RosPublish_add c \<or> is_Plug c) new =
        concat (map (\<lambda>sg. export_calls d (short_name sg)) (signals d))) \<and>
    (\<forall>sg\<in>set (signals d). \<exists>sg'\<in>set (signals d). short_name sg' = short_name sg \<and>
       export_calls d (short_name sg) =
         [RosPublish_add ''vector'' (''device__'' @ short_name sg)
            (''/dg__device__'' @ short_name sg),
          Plug sg' (''device__'' @ short_name sg)]) \<and>
    (ros r = Some b \<longrightarrow>
       export_signal_to_ros E sg0 (Some n) (r, q) =
         (None, (r, q\<lparr>calls := calls q @ [RosPublish_add ''vector'' n (''/dg__'' @ n), Plug sg0 n]\<rparr>)))"
proof -
  let ?t = "case trc of None \<Rightarrow> ''trace'' | Some t \<Rightarrow> t"
  let ?ex = "concat (map (\<lambda>sg. export_calls d (short_name sg)) (signals d))"
  let ?new = "(case trc of None \<Rightarrow> tracer_setup E (dev_name d) | Some t \<Rightarrow> [])
                @ map (\<lambda>sg. AddTrace nm ?t (dev_name d) (short_name sg)) (signals d)
                @ [Ros nm, After_addDownsampledSignal (dev_name d) ''rosPublish.trigger'' 1]
                @ ?ex"
  have "filter (\<lambda>c. is_RosPublish_add c \<or> is_Plug c) ?ex = ?ex"
    by (rule filter_concat_all) (simp add: export_calls_kinds)
  then have "filter (\<lambda>c. is_RosPublish_add c \<or> is_Plug c) ?new = ?ex"
    by (simp add: setup_kinds filter_map_none)
  then have 1: "\<exists>s' new. init E nm (Some d) trc p = (None, s') \<and> calls (snd s') = calls p @ new \<and>
      filter (\<lambda>c. is_RosPublish_add c \<or> is_Plug c) new = ?ex"
    by (simp add: init_ok[OF assms])
  have 2: "\<forall>sg\<in>set (signals d). \<exists>sg'\<in>set (signals d). short_name sg' = short_name sg \<and>
       export_calls d (short_name sg) =
         [RosPublish_add ''vector'' (''device__'' @ short_name sg)
            (''/dg__device__'' @ short_name sg),
          Plug sg' (''device__'' @ short_name sg)]"
    using export_calls_found[of _ d] by (simp add: publication_def)
  have 3: "ros r = Some b \<longrightarrow>
       export_signal_to_ros E sg0 (Some n) (r, q) =
         (None, (r, q\<lparr>calls := calls q @ [RosPublish_add ''vector'' n (''/dg__'' @ n), Plug sg0 n]\<rparr>))"
    using export_signal_ok[OF assms] by blast
  from 1 2 3 show ?thesis by blast
qed

theorem init_publishes_device_signals_witness:
  "(\<forall>c. \<not> fails env0 c) \<and>
   Signal ''Device(dev)::output(vector)::q'' \<in> set (signals device0) \<and>
   ros (fst built0) = Some ''robot'' \<and>
   (\<exists>s' new. init env0 ''robot'' (Some device0) None process0 = (None, s') \<and>
      calls (snd s') = calls process0 @ new \<and>
      filter (\<lambda>c. is_RosPublish_add c \<or> is_Plug c) new =
        [RosPublish_add ''vector'' ''device__q'' ''/dg__device__q'',
         Plug (Signal ''Device(dev)::output(vector)::q'') ''device__q'',
         RosPublish_add ''vector'' ''device__dq'' ''/dg__device__dq'',
         Plug (Signal ''Device(dev)::output(vector)::dq'') ''device__dq'']) \<and>
   export_signal_to_ros env0 (Signal ''x::y'') (Some ''topic'') built0 =
     (None, (fst built0, snd built0\<lparr>calls := calls (snd built0) @
        [RosPublish_add ''vector'' ''topic'' ''/dg__topic'', Plug (Signal ''x::y'') ''topic'']\<rparr>))"
proof -
  have sn: "short_name (Signal ''Device(dev)::output(vector)::q'') = ''q''"
    "short_name (Signal ''Device(dev)::output(vector)::dq'') = ''dq''"
    by (simp_all add: short_name_def)
  have ex: "concat (map (\<lambda>sg. export_calls device0 (short_name sg)) (signals device0)) =
        [RosPublish_add ''vector'' ''device__q'' ''/dg__device__q'',
         Plug (Signal ''Device(dev)::output(vector)::q'') ''device__q'',
         RosPublish_add ''vector'' ''device__dq'' ''/dg__device__dq'',
         Plug (Signal ''Device(dev)::output(vector)::dq'') ''device__dq'']"
    by (simp add: device0_def sn export_calls_def device_signal_def publication_def)
  have m: "Signal ''Device(dev)::output(vector)::q'' \<in> set (signals device0)"
    by (simp add: device0_def)
  have r: "ros (fst built0) = Some ''robot''" by (simp add: built0_state)
  from init_publishes_device_signals[OF env0_quiet, of "''robot''" device0 None process0
      "fst built0" "''robot''" "Signal ''x::y''" "''topic''" "snd built0"]
  show ?thesis using env0_quiet m r unfolding ex by simp
qed

lemma add_trace_appends:
  "tracer r = Some t \<Longrightarrow>
   autoRecomputedSignals (snd (snd (add_trace E e s (r, q)))) =
     autoRecomputedSignals q @ [e @ ''.'' @ s]"
  by (simp add: add_trace_def stmt_simps format_dot_def)

lemma short_name_cases:
  "short_name sg = signal_name sg \<or> (\<exists>pre. signal_name sg = pre @ ''::'' @ short_name sg)"
  using split_last_suffix[of "[]" "signal_name sg"] by (simp add: short_name_def)

lemma short_name_no_sep: "\<not> has_sep (short_name sg)"
  using split_last_no_sep[of "[]" "signal_name sg"] by (simp add: short_name_def)

lemma short_name_plain: "\<not> has_sep (signal_name sg) \<Longrightarrow> short_name sg = signal_name sg"
  by (simp add: short_name_def split_no_sep)

text \<open>
  Claim C7. The constructor only appends to \<open>autoRecomputedSignals\<close>; when no call
  raises it appends, for each device signal in order, the device name, a dot and the
  short name; an \<open>add_trace\<close> with a tracer set appends exactly one such entry. The
  short name is what follows the last separator \<open>::\<close> of the qualified name: it contains
  no separator, and it is the whole name or is preceded in it by a separator.
\<close>
theorem init_records_traces:
  "(\<exists>ys. autoRecomputedSignals (snd (snd (init E nm dev trc p))) =
       autoRecomputedSignals p @ ys) \<and>
   ((\<forall>c. \<not> fails E c) \<longrightarrow>
      (\<exists>s'. init E nm (Some d) trc p = (None, s') \<and>
         autoRecomputedSignals (snd s') = autoRecomputedSignals p @
           map (\<lambda>sg. dev_name d @ ''.'' @ short_name sg) (signals d))) \<and>
   (tracer r = Some t \<longrightarrow>
      autoRecomputedSignals (snd (snd (add_trace E e s (r, q)))) =
        autoRecomputedSignals q @ [e @ ''.'' @ s]) \<and>
   \<not> has_sep (short_name sg) \<and>
   (short_name sg = signal_name sg \<or> (\<exists>pre. signal_name sg = pre @ ''::'' @ short_name sg)) \<and>
   (\<not> has_sep (signal_name sg) \<longrightarrow> short_name sg = signal_name sg)"
proof -
  have 1: "\<exists>ys. autoRecomputedSignals (snd (snd (init E nm dev trc p))) =
       autoRecomputedSignals p @ ys"
    using init_propagates[of E nm dev trc p] by blast
  have 2: "\<exists>s'. init E nm (Some d) trc p = (None, s') \<and>
         autoRecomputedSignals (snd s') = autoRecomputedSignals p @
           map (\<lambda>sg. dev_name d @ ''.'' @ short_name sg) (signals d)"
    if "\<forall>c. \<not> fails E c"
    by (simp add: init_ok[OF that] format_dot_def)
  from 1 2 add_trace_appends short_name_no_sep short_name_cases short_name_plain
  show ?thesis by blast
qed

theorem init_records_traces_witness:
  "(\<forall>c. \<not> fails env0 c) \<and> tracer (fst built0) = Some ''trace'' \<and>
   has_sep ''Device(dev)::output(vector)::q'' \<and> \<not> has_sep ''plain'' \<and>
   short_name (Signal ''Device(dev)::output(vector)::q'') = ''q'' \<and>
   short_name (Signal ''plain'') = ''plain'' \<and>
   short_name (Signal ''a:::b'') = '':b'' \<and>
   (\<exists>s'. init env0 ''robot'' (Some device0) None process0 = (None, s') \<and>
      autoRecomputedSignals (snd s') = [''dev.q'', ''dev.dq'']) \<and>
   autoRecomputedSignals (snd (snd (add_trace env0 ''dev'' ''extra'' built0))) =
     [''dev.q'', ''dev.dq'', ''dev.extra'']"
proof -
  have sn: "short_name (Signal ''Device(dev)::output(vector)::q'') = ''q''"
    "short_name (Signal ''Device(dev)::output(vector)::dq'') = ''dq''"
    by (simp_all add: short_name_def)
  have t: "tracer (fst built0) = Some ''trace''"
    and l: "autoRecomputedSignals (snd built0) = [''dev.q'', ''dev.dq'']"
    by (simp_all add: built0_state)
  have hs: "has_sep ''Device(dev)::output(vector)::q''" "\<not> has_sep ''plain''"
    by simp_all
  have dv: "dev_name device0 = ''dev''"
    "signals device0 = [Signal ''Device(dev)::output(vector)::q'',
       Signal ''Device(dev)::output(vector)::dq'']"
    by (simp_all add: device0_def)
  have p0: "autoRecomputedSignals process0 = []" by (simp add: process0_def)
  have b: "built0 = (fst built0, snd built0)" by simp
  from init_records_traces[of env0 "''robot''" "Some device0" None process0 device0
      "fst built0" "''trace''" "''dev''" "''extra''" "snd built0" "Signal ''plain''"]
  have "(\<exists>s'. init env0 ''robot'' (Some device0) None process0 = (None, s') \<and>
      autoRecomputedSignals (snd s') = [''dev.q'', ''dev.dq'']) \<and>
   autoRecomputedSignals (snd (snd (add_trace env0 ''dev'' ''extra'' (fst built0, snd built0)))) =
     [''dev.q'', ''dev.dq'', ''dev.extra''] \<and> short_name (Signal ''plain'') = ''plain''"
    using env0_quiet t l hs unfolding dv p0 by (simp add: sn)
  moreover have "short_name (Signal ''a:::b'') = '':b''"
    by (simp add: short_name_def)
  ultimately show ?thesis
    using env0_quiet t hs sn by simp
qed

lemma stop_built0_raises:
  "stop_tracer env1 built0 =
     (Some (Raised (Tracer_dump ''trace'')),
      (fst built0, snd built0\<lparr>calls := calls (snd built0) @ [Tracer_dump ''trace'']\<rparr>))"
  by (simp add: built0_state stop_tracer_def stmt_simps env1_def)

lemma fallback_path:
  "h \<noteq> [] \<Longrightarrow> last h \<noteq> CHR ''/'' \<Longrightarrow> ts = [] \<or> hd ts \<noteq> CHR ''/'' \<Longrightarrow>
   os_path_join h [''.dynamic_graph_manager'', ts] = h @ ''/.dynamic_graph_manager/'' @ ts"
  by auto

lemma initialize_tracer_opens:
  assumes "tracer r = None" and "\<not> fails E (TracerRealTime ''trace'')"
    and "\<not> fails E (Tracer_setBufferSize ''trace'' tracerSize)"
  shows "Tracer_open ''trace'' (log_dir E) ''dg_'' ''.dat''
    \<in> set (calls (snd (snd (initialize_tracer E (r, p)))))"
  using assms
  by (simp add: initialize_tracer_def stmt_simps split: option.splits)

text \<open>
  Claim C4. When \<open>rospy.get_param\<close> raises, \<open>initialize_tracer\<close> goes on and opens the
  new tracer at \<open>os.path.join\<close> of the home directory, \<open>.dynamic_graph_manager\<close> and the
  time formatted by \<open>%Y_%m_%d_%H_%M_%S\<close>, which is
  \<open><home>/.dynamic_graph_manager/<time>\<close> for a home directory that does not end in a
  slash. No other exception is caught: in every method and in the constructor, a
  call on a collaborator that raises is the exception the method raises, and the
  outcome of the method is the first of its attempts that raises, in program order,
  whether a call on a collaborator, an attribute read on a missing device, interface
  or list of names, or a failed signal lookup; the method returns normally only when
  none of them raises.
\<close>
theorem lookup_failure_falls_back:
  assumes "get_param E ''/dynamic_graph/log_dir'' = None" and "tracer r = None"
    and "\<not> fails E (TracerRealTime ''trace'')"
    and "\<not> fails E (Tracer_setBufferSize ''trace'' tracerSize)"
  shows "Tracer_open ''trace''
        (os_path_join (expanduser E ''~'')
           [''.dynamic_graph_manager'', strftime E ''%Y_%m_%d_%H_%M_%S'']) ''dg_'' ''.dat''
      \<in> set (calls (snd (snd (initialize_tracer E (r, p))))) \<and>
    (expanduser E ''~'' \<noteq> [] \<and> last (expanduser E ''~'') \<noteq> CHR ''/'' \<and>
     (strftime E ''%Y_%m_%d_%H_%M_%S'' = [] \<or> hd (strftime E ''%Y_%m_%d_%H_%M_%S'') \<noteq> CHR ''/'') \<longrightarrow>
       os_path_join (expanduser E ''~'')
           [''.dynamic_graph_manager'', strftime E ''%Y_%m_%d_%H_%M_%S''] =
         expanduser E ''~'' @ ''/.dynamic_graph_manager/'' @ strftime E ''%Y_%m_%d_%H_%M_%S'') \<and>
    ((\<forall>c. \<not> fails E c) \<and> device r = Some d \<longrightarrow> fst (initialize_tracer E (r, p)) = None) \<and>
    propagates E (initialize_tracer E) \<and> propagates E (add_trace E e n) \<and>
    propagates E (start_tracer E) \<and> propagates E (stop_tracer E) \<and> propagates E (del E) \<and>
    propagates E (export_signal_to_ros E sg tn) \<and> propagates E (export_device_dg_to_ros E) \<and>
    run_ok E (r0, p0) (init E nm dev trc p0) \<and>
    fst (initialize_tracer E (ra, pa)) = first_raise E (initialize_tracer_attempts E ra) \<and>
    fst (add_trace E e n (ra, pa)) = first_raise E (add_trace_attempts ra e n) \<and>
    fst (start_tracer E (ra, pa)) = first_raise E (start_tracer_attempts ra) \<and>
    fst (stop_tracer E (ra, pa)) = first_raise E (stop_tracer_attempts ra pa) \<and>
    fst (del E (ra, pa)) = first_raise E (stop_tracer_attempts ra pa) \<and>
    fst (export_signal_to_ros E sg tn (ra, pa)) = first_raise E (export_signal_attempts ra sg tn) \<and>
    fst (export_device_dg_to_ros E (ra, pa)) = first_raise E (export_device_attempts ra) \<and>
    fst (init E nm dev trc p0) = first_raise E (init_attempts E nm dev trc)"
proof -
  have ld: "log_dir E = os_path_join (expanduser E ''~'')
           [''.dynamic_graph_manager'', strftime E ''%Y_%m_%d_%H_%M_%S'']"
    using assms(1) by (simp add: log_dir_def)
  have 1: "Tracer_open ''trace''
        (os_path_join (expanduser E ''~'')
           [''.dynamic_graph_manager'', strftime E ''%Y_%m_%d_%H_%M_%S'']) ''dg_'' ''.dat''
      \<in> set (calls (snd (snd (initialize_tracer E (r, p)))))"
    using initialize_tracer_opens[OF assms(2,3,4), of p] unfolding ld .
  have 2: "expanduser E ''~'' \<noteq> [] \<and> last (expanduser E ''~'') \<noteq> CHR ''/'' \<and>
     (strftime E ''%Y_%m_%d_%H_%M_%S'' = [] \<or> hd (strftime E ''%Y_%m_%d_%H_%M_%S'') \<noteq> CHR ''/'') \<longrightarrow>
       os_path_join (expanduser E ''~'')
           [''.dynamic_graph_manager'', strftime E ''%Y_%m_%d_%H_%M_%S''] =
         expanduser E ''~'' @ ''/.dynamic_graph_manager/'' @ strftime E ''%Y_%m_%d_%H_%M_%S''"
    using fallback_path by blast
  have 3: "(\<forall>c. \<not> fails E c) \<and> device r = Some d \<longrightarrow> fst (initialize_tracer E (r, p)) = None"
    using assms(2) by (auto simp: initialize_tracer_ok)
  have 4: "run_ok E (r0, p0) (init E nm dev trc p0)"
    using init_propagates[of E nm dev trc p0] by (simp add: run_ok_def)
  have 5: "propagates E (initialize_tracer E) \<and> propagates E (add_trace E e n) \<and>
    propagates E (start_tracer E) \<and> propagates E (stop_tracer E) \<and> propagates E (del E) \<and>
    propagates E (export_signal_to_ros E sg tn) \<and> propagates E (export_device_dg_to_ros E)"
    by (simp add: propagates_initialize_tracer propagates_add_trace propagates_start_tracer
        propagates_stop_tracer propagates_del propagates_export_signal propagates_export_device)
  have 6: "fst (initialize_tracer E (ra, pa)) = first_raise E (initialize_tracer_attempts E ra) \<and>
    fst (add_trace E e n (ra, pa)) = first_raise E (add_trace_attempts ra e n) \<and>
    fst (start_tracer E (ra, pa)) = first_raise E (start_tracer_attempts ra) \<and>
    fst (stop_tracer E (ra, pa)) = first_raise E (stop_tracer_attempts ra pa) \<and>
    fst (del E (ra, pa)) = first_raise E (stop_tracer_attempts ra pa) \<and>
    fst (export_signal_to_ros E sg tn (ra, pa)) = first_raise E (export_signal_attempts ra sg tn) \<and>
    fst (export_device_dg_to_ros E (ra, pa)) = first_raise E (export_device_attempts ra) \<and>
    fst (init E nm dev trc p0) = first_raise E (init_attempts E nm dev trc)"
    by (simp only: initialize_tracer_outcome add_trace_outcome start_tracer_outcome
        stop_tracer_outcome del_outcome export_signal_outcome export_device_outcome
        init_outcome simp_thms)
  from 1 2 3 4 5 6 show ?thesis by blast
qed

theorem lookup_failure_falls_back_witness:
  "get_param env1 ''/dynamic_graph/log_dir'' = None \<and>
   \<not> fails env1 (TracerRealTime ''trace'') \<and>
   \<not> fails env1 (Tracer_setBufferSize ''trace'' tracerSize) \<and>
   Tracer_open ''trace'' ''/home/robot/.dynamic_graph_manager/2020_01_02_03_04_05'' ''dg_'' ''.dat''
     \<in> set (calls (snd (snd (initialize_tracer env1
         (\<lparr>name = ''robot'', device = Some device0, tracer = None, tracedSignals = [],
           device_signals_names = None, ros = None\<rparr>, process0))))) \<and>
   fails env1 (Tracer_dump ''trace'') \<and>
   Tracer_dump ''trace'' \<in> set (calls (snd (snd (stop_tracer env1 built0)))) \<and>
   fst (stop_tracer env1 built0) = Some (Raised (Tracer_dump ''trace'')) \<and>
   fst (init env1 ''robot'' None None process0) = Some AttributeError \<and>
   fst (stop_tracer env1
         (\<lparr>name = ''robot'', device = None, tracer = Some ''tr'', tracedSignals = [],
           device_signals_names = None, ros = None\<rparr>,
          \<lparr>autoRecomputedSignals = [''dev.q''], calls = []\<rparr>)) = Some AttributeError \<and>
   fst (export_device_dg_to_ros env1
         (\<lparr>name = ''robot'', device = Some device0, tracer = None, tracedSignals = [],
           device_signals_names = Some [''q'', ''tau''], ros = Some ''robot''\<rparr>, process0)) =
     Some (LookupFailed ''tau'')"
proof -
  let ?r = "\<lparr>name = ''robot'', device = Some device0, tracer = None, tracedSignals = [],
           device_signals_names = None, ros = None\<rparr>"
  let ?rn = "\<lparr>name = ''robot'', device = None, tracer = Some ''tr'', tracedSignals = [],
           device_signals_names = None, ros = None\<rparr>"
  let ?pn = "\<lparr>autoRecomputedSignals = [''dev.q''], calls = []\<rparr>"
  let ?rl = "\<lparr>name = ''robot'', device = Some device0, tracer = None, tracedSignals = [],
           device_signals_names = Some [''q'', ''tau''], ros = Some ''robot''\<rparr>"
  have a1: "get_param env1 ''/dynamic_graph/log_dir'' = None"
    and a3: "\<not> fails env1 (TracerRealTime ''trace'')"
    and a4: "\<not> fails env1 (Tracer_setBufferSize ''trace'' tracerSize)"
    and f: "fails env1 (Tracer_dump ''trace'')"
    by (simp_all add: env1_def)
  have a2: "tracer ?r = None" by simp
  have home: "expanduser env1 ''~'' = ''/home/robot''"
    and ts: "strftime env1 ''%Y_%m_%d_%H_%M_%S'' = ''2020_01_02_03_04_05''"
    by (simp_all add: env1_def)
  note inst = lookup_failure_falls_back[OF a1 a2 a3 a4, where p = process0 and d = device0
      and e = "''dev''" and n = "''q''" and sg = "Signal ''x''" and tn = None
      and ?r0.0 = "fst built0" and ?p0.0 = process0 and nm = "''robot''" and trc = None]
  note inst1 = inst[where dev = "Some device0" and ra = ?rn and pa = ?pn]
  note inst2 = inst[where dev = None and ra = ?rl and pa = process0]
  from inst1 have opened: "Tracer_open ''trace''
        (os_path_join (expanduser env1 ''~'')
           [''.dynamic_graph_manager'', strftime env1 ''%Y_%m_%d_%H_%M_%S'']) ''dg_'' ''.dat''
      \<in> set (calls (snd (snd (initialize_tracer env1 (?r, process0)))))"
    by blast
  from inst1 have path: "os_path_join (expanduser env1 ''~'')
           [''.dynamic_graph_manager'', strftime env1 ''%Y_%m_%d_%H_%M_%S''] =
         expanduser env1 ''~'' @ ''/.dynamic_graph_manager/'' @ strftime env1 ''%Y_%m_%d_%H_%M_%S''"
    unfolding home ts by simp
  from inst1 have "propagates env1 (stop_tracer env1)" by blast
  then have "run_ok env1 built0 (stop_tracer env1 built0)" by (rule propagatesD)
  then obtain new where new: "calls (snd (snd (stop_tracer env1 built0))) = calls (snd built0) @ new"
    and raised: "\<forall>c\<in>set new. fails env1 c \<longrightarrow> fst (stop_tracer env1 built0) = Some (Raised c)"
    unfolding run_ok_def by blast
  from new have "new = [Tracer_dump ''trace'']"
    by (simp add: stop_built0_raises)
  with raised f have r: "fst (stop_tracer env1 built0) = Some (Raised (Tracer_dump ''trace''))"
    by simp
  have c: "Tracer_dump ''trace'' \<in> set (calls (snd (snd (stop_tracer env1 built0))))"
    by (simp add: stop_built0_raises)
  from opened path have o: "Tracer_open ''trace''
      ''/home/robot/.dynamic_graph_manager/2020_01_02_03_04_05'' ''dg_'' ''.dat''
     \<in> set (calls (snd (snd (initialize_tracer env1 (?r, process0)))))"
    unfolding home ts by simp
  from inst1 have "fst (stop_tracer env1 (?rn, ?pn)) = first_raise env1 (stop_tracer_attempts ?rn ?pn)"
    by blast
  then have n1: "fst (stop_tracer env1 (?rn, ?pn)) = Some AttributeError"
    by (simp add: stop_tracer_attempts_def env1_def)
  from inst2 have "fst (init env1 ''robot'' None None process0) =
      first_raise env1 (init_attempts env1 ''robot'' None None)"
    by blast
  then have n2: "fst (init env1 ''robot'' None None process0) = Some AttributeError"
    by (simp add: init_attempts_def env1_def)
  from inst2 have "fst (export_device_dg_to_ros env1 (?rl, process0)) =
      first_raise env1 (export_device_attempts ?rl)"
    by blast
  then have n3: "fst (export_device_dg_to_ros env1 (?rl, process0)) = Some (LookupFailed ''tau'')"
    by (simp add: export_device_attempts_def export_signal_attempts_def device_signal_def
        device0_def short_name_def env1_def Let_def)
  from a1 a3 a4 f c r o n1 n2 n3 show ?thesis by blast
qed

end
